theory Spec2Isabelle
  imports Main
begin

section \<open>Custom-claims migration script (scripts/migrate\_claims.py)\<close>

text \<open>
  The script reads the \<open>stores\<close> and \<open>users\<close> collections of a document database,
  indexes the stores by owner, and for each user decides whether to write the claims
  \<open>{storeId, role}\<close> into the authentication service.  The model below follows the
  script function by function.  Console output is not modelled.  The two collections
  are the lists that \<open>stream()\<close> yields, in the order it yields them.
\<close>

subsection \<open>Documents of the document database\<close>

text \<open>
  A field of a document holds a value of the database: null, a boolean, a number, a
  string, an array or a map (a dictionary with string keys, kept as an association list
  and read with \<open>map_of\<close>).  Values of the other kinds the database has (timestamps,
  references, bytes) behave here like the values that are not maps.
\<close>

datatype field =
  FNull
| FBool bool
| FNumber int
| FString string
| FArray "field list"
| FMap "(string \<times> field) list"

text \<open>
  A store document carries its document id and the fields the script reads.
  \<open>ownerId\<close> is a string when present; \<open>None\<close> stands for an absent key and for a
  null value (both are falsy and both are what \<open>data.get('ownerId')\<close> returns as
  \<open>None\<close>).  \<open>basicInfo\<close> is \<open>None\<close> when the key is absent and otherwise the
  value stored, of whatever kind.  \<open>email\<close> is a string when present.
\<close>

type_synonym uid = string

record store_doc =
  store_doc_id :: string
  ownerId :: "string option"
  basicInfo :: "field option"

record user_doc =
  user_doc_id :: uid
  email :: "string option"

record firestore =
  stores :: "store_doc list"
  users :: "user_doc list"

text \<open>The value kept in the ownership index for one owner.  \<open>storeName\<close> is
  whatever \<open>basicInfo.name\<close> holds, or the placeholder string.\<close>

record store_info =
  storeId :: string
  storeName :: field

text \<open>The exception the script can raise outside its \<open>try\<close> blocks: calling
  \<open>.get\<close> on a value that is not a dictionary.\<close>

datatype py_error = AttributeError

text \<open>Truthiness of the result of \<open>dict.get(key)\<close> on string values:
  \<open>None\<close> and the empty string are falsy.\<close>

definition py_truthy :: "string option \<Rightarrow> bool" where
  "py_truthy v = (case v of None \<Rightarrow> False | Some s \<Rightarrow> s \<noteq> [])"

subsection \<open>The authentication service\<close>

text \<open>
  A claim set is a dictionary with string keys and string values; it is kept as an
  association list and read with \<open>map_of\<close>.  An account's \<open>custom_claims\<close>
  attribute is \<open>None\<close> when no claims were ever set.

  The service is the external library \<open>firebase_admin.auth\<close>.  Its state is the accounts
  with their claims, the set of accounts whose refresh tokens were revoked, and a log of
  every call the script attempted.  A call raises when the uid has no account, or when
  the environment makes it fail: \<open>faults\<close> says, for each of the three operations and
  each uid, whether the call fails during one run (a network or quota error).  A run
  calls each operation at most once per user document, so this covers every pattern of
  failures of one run; two runs may have different faults.  Setting the claims replaces
  the whole claim set of the account.
\<close>

type_synonym claims = "(string \<times> string) list"

datatype api_call =
  GetUser uid
| SetCustomUserClaims uid claims
| RevokeRefreshTokens uid

datatype auth_error = UserNotFoundError | FirebaseError

record auth_state =
  accounts :: "uid \<rightharpoonup> claims option"
  revoked :: "uid set"
  calls :: "api_call list"

record faults =
  get_user_fails :: "uid \<Rightarrow> bool"
  set_claims_fails :: "uid \<Rightarrow> bool"
  revoke_fails :: "uid \<Rightarrow> bool"

definition auth_get_user ::
  "faults \<Rightarrow> uid \<Rightarrow> auth_state \<Rightarrow> (auth_error + claims option) \<times> auth_state" where
  "auth_get_user env u a =
     (let a' = a\<lparr>calls := calls a @ [GetUser u]\<rparr> in
      if get_user_fails env u then (Inl FirebaseError, a')
      else case accounts a u of
             None \<Rightarrow> (Inl UserNotFoundError, a')
           | Some cc \<Rightarrow> (Inr cc, a'))"

definition auth_set_custom_user_claims ::
  "faults \<Rightarrow> uid \<Rightarrow> claims \<Rightarrow> auth_state \<Rightarrow> (auth_error + unit) \<times> auth_state" where
  "auth_set_custom_user_claims env u c a =
     (let a' = a\<lparr>calls := calls a @ [SetCustomUserClaims u c]\<rparr> in
      if set_claims_fails env u then (Inl FirebaseError, a')
      else case accounts a u of
             None \<Rightarrow> (Inl UserNotFoundError, a')
           | Some cc \<Rightarrow> (Inr (), a'\<lparr>accounts := (accounts a)(u \<mapsto> Some c)\<rparr>))"

definition auth_revoke_refresh_tokens ::
  "faults \<Rightarrow> uid \<Rightarrow> auth_state \<Rightarrow> (auth_error + unit) \<times> auth_state" where
  "auth_revoke_refresh_tokens env u a =
     (let a' = a\<lparr>calls := calls a @ [RevokeRefreshTokens u]\<rparr> in
      if revoke_fails env u then (Inl FirebaseError, a')
      else case accounts a u of
             None \<Rightarrow> (Inl UserNotFoundError, a')
           | Some cc \<Rightarrow> (Inr (), a'\<lparr>revoked := insert u (revoked a)\<rparr>))"

subsection \<open>The script's functions\<close>

text \<open>
  Line 53, \<open>data.get('basicInfo', {}).get('name', 'Sin nombre')\<close>: an absent
  \<open>basicInfo\<close> is replaced by the empty dictionary, whose \<open>name\<close> is the
  placeholder; a map yields its \<open>name\<close>, whatever value that is (a null name stays
  null), or the placeholder when it has no such key; on any other value, null included,
  \<open>.get\<close> raises \<open>AttributeError\<close>.
\<close>

definition store_entry :: "store_doc \<Rightarrow> py_error + store_info" where
  "store_entry doc =
     (case basicInfo doc of
        None \<Rightarrow> Inr \<lparr>storeId = store_doc_id doc, storeName = FString ''Sin nombre''\<rparr>
      | Some (FMap m) \<Rightarrow>
          Inr \<lparr>storeId = store_doc_id doc,
               storeName = (case map_of m ''name'' of
                              None \<Rightarrow> FString ''Sin nombre''
                            | Some v \<Rightarrow> v)\<rparr>
      | Some _ \<Rightarrow> Inl AttributeError)"

text \<open>\<open>get_all_stores\<close>: the dictionary \<open>stores\<close> is filled in one pass over the
  collection; a later assignment to the same key replaces the earlier one.  Line 53 is
  reached only for a truthy \<open>ownerId\<close>; when it raises, the function raises, since
  nothing catches the exception.\<close>

fun get_all_stores_loop ::
  "store_doc list \<Rightarrow> (uid \<rightharpoonup> store_info) \<Rightarrow> py_error + (uid \<rightharpoonup> store_info)" where
  "get_all_stores_loop [] m = Inr m"
| "get_all_stores_loop (doc # docs) m =
     (if py_truthy (ownerId doc)
      then (case ownerId doc of
              None \<Rightarrow> get_all_stores_loop docs m
            | Some owner_id \<Rightarrow>
                (case store_entry doc of
                   Inl e \<Rightarrow> Inl e
                 | Inr entry \<Rightarrow> get_all_stores_loop docs (m(owner_id \<mapsto> entry))))
      else get_all_stores_loop docs m)"

definition get_all_stores :: "firestore \<Rightarrow> py_error + (uid \<rightharpoonup> store_info)" where
  "get_all_stores db = get_all_stores_loop (stores db) Map.empty"


definition stored_name :: "store_doc \<Rightarrow> field" where
  "stored_name doc =
     (case basicInfo doc of
        Some (FMap m) \<Rightarrow> (case map_of m ''name'' of None \<Rightarrow> FString ''Sin nombre'' | Some v \<Rightarrow> v)
      | _ \<Rightarrow> FString ''Sin nombre'')"

text \<open>The three wrappers catch every exception of the service call.\<close>

definition get_user_current_claims ::
  "faults \<Rightarrow> uid \<Rightarrow> auth_state \<Rightarrow> claims \<times> auth_state" where
  "get_user_current_claims env u a =
     (case auth_get_user env u a of
        (Inr cc, a') \<Rightarrow> ((case cc of None \<Rightarrow> [] | Some c \<Rightarrow> c), a')
      | (Inl e, a') \<Rightarrow> ([], a'))"

definition set_user_claims ::
  "faults \<Rightarrow> uid \<Rightarrow> claims \<Rightarrow> auth_state \<Rightarrow> bool \<times> auth_state" where
  "set_user_claims env u c a =
     (case auth_set_custom_user_claims env u c a of
        (Inr r, a') \<Rightarrow> (True, a')
      | (Inl e, a') \<Rightarrow> (False, a'))"

definition revoke_user_tokens ::
  "faults \<Rightarrow> uid \<Rightarrow> auth_state \<Rightarrow> bool \<times> auth_state" where
  "revoke_user_tokens env u a =
     (case auth_revoke_refresh_tokens env u a of
        (Inr r, a') \<Rightarrow> (True, a')
      | (Inl e, a') \<Rightarrow> (False, a'))"

subsection \<open>The migration loop\<close>

record stats =
  total :: int
  migrated :: int
  already_has_claims :: int
  no_store :: int
  errors :: int

text \<open>One entry of \<open>results\<close>; its keys are \<open>userId\<close>, \<open>email\<close>, \<open>status\<close>,
  \<open>storeId\<close> and \<open>role\<close>.\<close>

record outcome =
  o_userId :: uid
  o_email :: string
  o_status :: string
  o_storeId :: "string option"
  o_role :: "string option"

record run_state =
  st :: stats
  results :: "outcome list"
  auth :: auth_state

text \<open>The body of \<open>for user_doc in users_ref.stream()\<close>, for one user document.\<close>

definition migrate_claims_body ::
  "faults \<Rightarrow> (uid \<rightharpoonup> store_info) \<Rightarrow> user_doc \<Rightarrow> run_state \<Rightarrow> run_state" where
  "migrate_claims_body env stores_by_owner user s =
     (let user_id = user_doc_id user;
          mail = (case email user of None \<Rightarrow> ''N/A'' | Some e \<Rightarrow> e);
          st1 = (st s)\<lparr>total := total (st s) + 1\<rparr>;
          (current_claims, a1) = get_user_current_claims env user_id (auth s)
      in
        if py_truthy (map_of current_claims ''storeId'') then
          \<lparr>st = st1\<lparr>already_has_claims := already_has_claims st1 + 1\<rparr>,
           results = results s @
             [\<lparr>o_userId = user_id, o_email = mail, o_status = ''already_has_claims'',
               o_storeId = map_of current_claims ''storeId'',
               o_role = map_of current_claims ''role''\<rparr>],
           auth = a1\<rparr>
        else
          case stores_by_owner user_id of
            None \<Rightarrow>
              \<lparr>st = st1\<lparr>no_store := no_store st1 + 1\<rparr>,
               results = results s @
                 [\<lparr>o_userId = user_id, o_email = mail, o_status = ''no_store'',
                   o_storeId = None, o_role = None\<rparr>],
               auth = a1\<rparr>
          | Some info \<Rightarrow>
              (let new_claims = [(''storeId'', storeId info), (''role'', ''owner'')];
                   (written, a2) = set_user_claims env user_id new_claims a1
               in
                 if written then
                   (let (tokens_revoked, a3) = revoke_user_tokens env user_id a2 in
                    \<lparr>st = st1\<lparr>migrated := migrated st1 + 1\<rparr>,
                     results = results s @
                       [\<lparr>o_userId = user_id, o_email = mail, o_status = ''migrated'',
                         o_storeId = Some (storeId info), o_role = Some ''owner''\<rparr>],
                     auth = a3\<rparr>)
                 else
                   \<lparr>st = st1\<lparr>errors := errors st1 + 1\<rparr>,
                    results = results s @
                      [\<lparr>o_userId = user_id, o_email = mail, o_status = ''error'',
                        o_storeId = None, o_role = None\<rparr>],
                    auth = a2\<rparr>))"

fun migrate_claims_loop ::
  "faults \<Rightarrow> (uid \<rightharpoonup> store_info) \<Rightarrow> user_doc list \<Rightarrow> run_state \<Rightarrow> run_state" where
  "migrate_claims_loop env stores_by_owner [] s = s"
| "migrate_claims_loop env stores_by_owner (user # rest) s =
     migrate_claims_loop env stores_by_owner rest
       (migrate_claims_body env stores_by_owner user s)"

text \<open>The log file holds \<open>stats\<close> and \<open>results\<close> (and a timestamp, left out here).
  \<open>migrate_claims\<close> returns \<open>stats\<close>; the model also returns the log written and the
  state in which the run leaves the authentication service.  When \<open>get_all_stores\<close>
  raises, \<open>migrate_claims\<close> raises before it has read a user or called the service,
  and writes no log.\<close>

record run_report =
  report_stats :: stats
  report_results :: "outcome list"

record run_result =
  returned :: stats
  log_file :: run_report
  auth_after :: auth_state

definition initial_stats :: stats where
  "initial_stats = \<lparr>total = 0, migrated = 0, already_has_claims = 0, no_store = 0, errors = 0\<rparr>"

definition migrate_claims :: "faults \<Rightarrow> firestore \<Rightarrow> auth_state \<Rightarrow> py_error + run_result" where
  "migrate_claims env db a =
     (case get_all_stores db of
        Inl e \<Rightarrow> Inl e
      | Inr stores_by_owner \<Rightarrow>
          (let s = migrate_claims_loop env stores_by_owner (users db)
                     \<lparr>st = initial_stats, results = [], auth = a\<rparr>
           in Inr \<lparr>returned = st s,
                   log_file = \<lparr>report_stats = st s, report_results = results s\<rparr>,
                   auth_after = auth s\<rparr>))"

subsection \<open>Observations on one loop iteration\<close>

text \<open>What the iteration for \<open>user\<close>, started in state \<open>s\<close>, assigns to
  \<open>current_claims\<close>; whether its \<open>auth.get_user\<close> call raises; and what
  \<open>set_user_claims\<close> returns when the iteration reaches it with the store \<open>info\<close>.\<close>

definition fetched_claims :: "faults \<Rightarrow> run_state \<Rightarrow> user_doc \<Rightarrow> claims" where
  "fetched_claims env s user = fst (get_user_current_claims env (user_doc_id user) (auth s))"

definition fetch_raises :: "faults \<Rightarrow> run_state \<Rightarrow> user_doc \<Rightarrow> bool" where
  "fetch_raises env s user = isl (fst (auth_get_user env (user_doc_id user) (auth s)))"

definition write_ok :: "faults \<Rightarrow> run_state \<Rightarrow> user_doc \<Rightarrow> store_info \<Rightarrow> bool" where
  "write_ok env s user info =
     fst (set_user_claims env (user_doc_id user)
            [(''storeId'', storeId info), (''role'', ''owner'')]
            (snd (get_user_current_claims env (user_doc_id user) (auth s))))"

text \<open>The outcome record the iteration appends.\<close>

definition outcome_of ::
  "faults \<Rightarrow> (uid \<rightharpoonup> store_info) \<Rightarrow> user_doc \<Rightarrow> run_state \<Rightarrow> outcome" where
  "outcome_of env stores_by_owner user s =
     last (results (migrate_claims_body env stores_by_owner user s))"

text \<open>The authentication service holds a non-empty \<open>storeId\<close> claim for the account.\<close>

definition has_store_claim :: "auth_state \<Rightarrow> uid \<Rightarrow> bool" where
  "has_store_claim a u =
     (case accounts a u of
        Some (Some c) \<Rightarrow> py_truthy (map_of c ''storeId'')
      | _ \<Rightarrow> False)"

text \<open>Two loop states that differ at most in the set of revoked tokens.\<close>

definition agree_up_to_revoked :: "run_state \<Rightarrow> run_state \<Rightarrow> bool" where
  "agree_up_to_revoked s t =
     (st s = st t \<and> results s = results t
      \<and> accounts (auth s) = accounts (auth t) \<and> calls (auth s) = calls (auth t))"

text \<open>The aggregate counts computed again from a list of outcome records.\<close>

definition count_status :: "string \<Rightarrow> outcome list \<Rightarrow> int" where
  "count_status x rs = int (length (filter (\<lambda>out. o_status out = x) rs))"

definition recount :: "outcome list \<Rightarrow> stats" where
  "recount rs =
     \<lparr>total = int (length rs),
      migrated = count_status ''migrated'' rs,
      already_has_claims = count_status ''already_has_claims'' rs,
      no_store = count_status ''no_store'' rs,
      errors = count_status ''error'' rs\<rparr>"

subsection \<open>An example run\<close>

text \<open>Store S1 is owned by u1, store S2 has no owner; u2 already carries claims;
  u3 owns nothing.\<close>

definition no_faults :: faults where
  "no_faults = \<lparr>get_user_fails = (\<lambda>u. False), set_claims_fails = (\<lambda>u. False),
                revoke_fails = (\<lambda>u. False)\<rparr>"

definition user_u1 :: user_doc where
  "user_u1 = \<lparr>user_doc_id = ''u1'', email = Some ''a@x.com''\<rparr>"

definition user_u2 :: user_doc where
  "user_u2 = \<lparr>user_doc_id = ''u2'', email = Some ''b@x.com''\<rparr>"

definition user_u3 :: user_doc where
  "user_u3 = \<lparr>user_doc_id = ''u3'', email = Some ''c@x.com''\<rparr>"

definition example_db :: firestore where
  "example_db =
     \<lparr>stores = [\<lparr>store_doc_id = ''S1'', ownerId = Some ''u1'',
                  basicInfo = Some (FMap [(''name'', FString ''Acme'')])\<rparr>,
                \<lparr>store_doc_id = ''S2'', ownerId = None, basicInfo = None\<rparr>],
      users = [user_u1, user_u2, user_u3]\<rparr>"

definition example_index :: "uid \<rightharpoonup> store_info" where
  "example_index = [''u1'' \<mapsto> \<lparr>storeId = ''S1'', storeName = FString ''Acme''\<rparr>]"

text \<open>The same users over stores none of which has an owner; the second store has a
  null \<open>basicInfo\<close>.\<close>

definition unowned_db :: firestore where
  "unowned_db =
     \<lparr>stores = [\<lparr>store_doc_id = ''S2'', ownerId = None, basicInfo = None\<rparr>,
                \<lparr>store_doc_id = ''S3'', ownerId = Some [], basicInfo = Some FNull\<rparr>],
      users = [user_u1, user_u2, user_u3]\<rparr>"



text \<open>Environments in which the claim write for u1, or every \<open>get_user\<close> call,
  fails.\<close>

definition failing_write :: faults where
  "failing_write = no_faults\<lparr>set_claims_fails := (\<lambda>u. u = ''u1'')\<rparr>"

definition failing_fetch :: faults where
  "failing_fetch = no_faults\<lparr>get_user_fails := (\<lambda>u. True)\<rparr>"

definition example_auth :: auth_state where
  "example_auth =
     \<lparr>accounts = [''u1'' \<mapsto> None,
                  ''u2'' \<mapsto> Some [(''storeId'', ''S9''), (''role'', ''owner'')],
                  ''u3'' \<mapsto> None],
      revoked = {}, calls = []\<rparr>"

text \<open>The accounts once u1 carries the claims for its store S1.\<close>

definition example_auth_migrated :: auth_state where
  "example_auth_migrated =
     \<lparr>accounts = [''u1'' \<mapsto> Some [(''storeId'', ''S1''), (''role'', ''owner'')],
                  ''u2'' \<mapsto> Some [(''storeId'', ''S9''), (''role'', ''owner'')],
                  ''u3'' \<mapsto> None],
      revoked = {''u1''}, calls = []\<rparr>"

definition example_state :: run_state where
  "example_state = \<lparr>st = initial_stats, results = [], auth = example_auth\<rparr>"

section \<open>Properties\<close>


subsection \<open>The wrappers of the service calls\<close>

lemma get_user_current_claims_eq:
  "get_user_current_claims env u a =
     ((if get_user_fails env u then []
       else case accounts a u of Some (Some c) \<Rightarrow> c | _ \<Rightarrow> []),
      a\<lparr>calls := calls a @ [GetUser u]\<rparr>)"
  by (simp add: get_user_current_claims_def auth_get_user_def Let_def split: option.splits)

lemma set_user_claims_eq:
  "set_user_claims env u c a =
     (if \<not> set_claims_fails env u \<and> accounts a u \<noteq> None
      then (True, a\<lparr>calls := calls a @ [SetCustomUserClaims u c], accounts := (accounts a)(u \<mapsto> Some c)\<rparr>)
      else (False, a\<lparr>calls := calls a @ [SetCustomUserClaims u c]\<rparr>))"
  by (auto simp add: set_user_claims_def auth_set_custom_user_claims_def Let_def split: option.splits)

lemma revoke_user_tokens_eq:
  "revoke_user_tokens env u a =
     (if \<not> revoke_fails env u \<and> accounts a u \<noteq> None
      then (True, a\<lparr>calls := calls a @ [RevokeRefreshTokens u], revoked := insert u (revoked a)\<rparr>)
      else (False, a\<lparr>calls := calls a @ [RevokeRefreshTokens u]\<rparr>))"
  by (auto simp add: revoke_user_tokens_def auth_revoke_refresh_tokens_def Let_def split: option.splits)


subsection \<open>The ownership index\<close>

lemma find_snoc:
  "find P (xs @ [x]) = (case find P xs of None \<Rightarrow> (if P x then Some x else None) | Some y \<Rightarrow> Some y)"
  by (induction xs) auto


lemma store_entry_Inr:
  "store_entry d = Inr e \<Longrightarrow> e = \<lparr>storeId = store_doc_id d, storeName = stored_name d\<rparr>"
  by (auto simp add: store_entry_def stored_name_def split: option.splits field.splits)

lemma get_all_stores_loop_lookup:
  "get_all_stores_loop docs m = Inr idx \<Longrightarrow>
   idx owner =
     (if owner = [] then m owner
      else case find (\<lambda>d. ownerId d = Some owner) (rev docs) of
             None \<Rightarrow> m owner
           | Some d \<Rightarrow> Some \<lparr>storeId = store_doc_id d, storeName = stored_name d\<rparr>)"
proof (induction docs arbitrary: m)
  case Nil
  then show ?case by simp
next
  case (Cons doc docs)
  show ?case
  proof (cases "py_truthy (ownerId doc)")
    case False
    with Cons.prems have "get_all_stores_loop docs m = Inr idx" by simp
    from Cons.IH [OF this] False show ?thesis
      by (auto simp add: find_snoc py_truthy_def split: option.splits)
  next
    case True
    then obtain w where w: "ownerId doc = Some w" and ne: "w \<noteq> []"
      by (auto simp add: py_truthy_def split: option.splits)
    with True Cons.prems obtain e where e: "store_entry doc = Inr e"
      and l: "get_all_stores_loop docs (m(w \<mapsto> e)) = Inr idx"
      by (auto split: sum.splits)
    from store_entry_Inr [OF e]
    have v: "e = \<lparr>storeId = store_doc_id doc, storeName = stored_name doc\<rparr>" .
    from Cons.IH [OF l] w ne v show ?thesis
      by (auto simp add: find_snoc split: option.splits)
  qed
qed


lemma migrate_claims_Inr:
  "get_all_stores db = Inr idx \<Longrightarrow>
   migrate_claims env db a =
     Inr \<lparr>returned = st (migrate_claims_loop env idx (users db)
                          \<lparr>st = initial_stats, results = [], auth = a\<rparr>),
          log_file = \<lparr>report_stats = st (migrate_claims_loop env idx (users db)
                                         \<lparr>st = initial_stats, results = [], auth = a\<rparr>),
                      report_results = results (migrate_claims_loop env idx (users db)
                                         \<lparr>st = initial_stats, results = [], auth = a\<rparr>)\<rparr>,
          auth_after = auth (migrate_claims_loop env idx (users db)
                          \<lparr>st = initial_stats, results = [], auth = a\<rparr>)\<rparr>"
  by (simp add: migrate_claims_def Let_def)

lemma migrate_claims_returns:
  "migrate_claims env db a = Inr r \<Longrightarrow> \<exists>idx. get_all_stores db = Inr idx"
  by (cases "get_all_stores db") (simp_all add: migrate_claims_def)

lemmas example_defs =
  example_db_def example_auth_def example_state_def no_faults_def failing_write_def
  failing_fetch_def user_u1_def user_u2_def user_u3_def initial_stats_def

lemma example_db_index: "get_all_stores example_db = Inr example_index"
  by (simp add: get_all_stores_def example_db_def py_truthy_def store_entry_def
      example_index_def)





subsection \<open>The four ways through one iteration\<close>

lemma fetched_claims_eq:
  "fetched_claims env s u =
     (if get_user_fails env (user_doc_id u) then []
      else case accounts (auth s) (user_doc_id u) of Some (Some c) \<Rightarrow> c | _ \<Rightarrow> [])"
  by (simp add: fetched_claims_def get_user_current_claims_eq)

lemma fetch_raises_eq:
  "fetch_raises env s u =
     (get_user_fails env (user_doc_id u) \<or> accounts (auth s) (user_doc_id u) = None)"
  by (simp add: fetch_raises_def auth_get_user_def Let_def split: option.splits)

lemma write_ok_eq:
  "write_ok env s u info =
     (\<not> set_claims_fails env (user_doc_id u) \<and> accounts (auth s) (user_doc_id u) \<noteq> None)"
  by (simp add: write_ok_def get_user_current_claims_eq set_user_claims_eq)

lemma body_already:
  assumes "py_truthy (map_of (fetched_claims env s u) ''storeId'')"
  shows "migrate_claims_body env idx u s =
     \<lparr>st = (st s)\<lparr>total := total (st s) + 1,
                  already_has_claims := already_has_claims (st s) + 1\<rparr>,
      results = results s @
        [\<lparr>o_userId = user_doc_id u,
          o_email = (case email u of None \<Rightarrow> ''N/A'' | Some e \<Rightarrow> e),
          o_status = ''already_has_claims'',
          o_storeId = map_of (fetched_claims env s u) ''storeId'',
          o_role = map_of (fetched_claims env s u) ''role''\<rparr>],
      auth = (auth s)\<lparr>calls := calls (auth s) @ [GetUser (user_doc_id u)]\<rparr>\<rparr>"
  using assms
  by (simp add: migrate_claims_body_def fetched_claims_def get_user_current_claims_eq Let_def)

lemma body_no_store:
  assumes "\<not> py_truthy (map_of (fetched_claims env s u) ''storeId'')"
    and "idx (user_doc_id u) = None"
  shows "migrate_claims_body env idx u s =
     \<lparr>st = (st s)\<lparr>total := total (st s) + 1, no_store := no_store (st s) + 1\<rparr>,
      results = results s @
        [\<lparr>o_userId = user_doc_id u,
          o_email = (case email u of None \<Rightarrow> ''N/A'' | Some e \<Rightarrow> e),
          o_status = ''no_store'', o_storeId = None, o_role = None\<rparr>],
      auth = (auth s)\<lparr>calls := calls (auth s) @ [GetUser (user_doc_id u)]\<rparr>\<rparr>"
  using assms
  by (simp add: migrate_claims_body_def fetched_claims_def get_user_current_claims_eq Let_def)

lemma body_error:
  assumes "\<not> py_truthy (map_of (fetched_claims env s u) ''storeId'')"
    and "idx (user_doc_id u) = Some info"
    and "\<not> write_ok env s u info"
  shows "migrate_claims_body env idx u s =
     \<lparr>st = (st s)\<lparr>total := total (st s) + 1, errors := errors (st s) + 1\<rparr>,
      results = results s @
        [\<lparr>o_userId = user_doc_id u,
          o_email = (case email u of None \<Rightarrow> ''N/A'' | Some e \<Rightarrow> e),
          o_status = ''error'', o_storeId = None, o_role = None\<rparr>],
      auth = (auth s)\<lparr>calls := calls (auth s) @
                [GetUser (user_doc_id u),
                 SetCustomUserClaims (user_doc_id u)
                   [(''storeId'', storeId info), (''role'', ''owner'')]]\<rparr>\<rparr>"
  using assms
  by (auto simp add: migrate_claims_body_def fetched_claims_def write_ok_eq Let_def
        get_user_current_claims_eq set_user_claims_eq)

lemma body_migrated:
  assumes "\<not> py_truthy (map_of (fetched_claims env s u) ''storeId'')"
    and "idx (user_doc_id u) = Some info"
    and "write_ok env s u info"
  shows "migrate_claims_body env idx u s =
     \<lparr>st = (st s)\<lparr>total := total (st s) + 1, migrated := migrated (st s) + 1\<rparr>,
      results = results s @
        [\<lparr>o_userId = user_doc_id u,
          o_email = (case email u of None \<Rightarrow> ''N/A'' | Some e \<Rightarrow> e),
          o_status = ''migrated'', o_storeId = Some (storeId info), o_role = Some ''owner''\<rparr>],
      auth = (auth s)\<lparr>calls := calls (auth s) @
                [GetUser (user_doc_id u),
                 SetCustomUserClaims (user_doc_id u)
                   [(''storeId'', storeId info), (''role'', ''owner'')],
                 RevokeRefreshTokens (user_doc_id u)],
              accounts := (accounts (auth s))
                (user_doc_id u \<mapsto> Some [(''storeId'', storeId info), (''role'', ''owner'')]),
              revoked := (if revoke_fails env (user_doc_id u) then revoked (auth s)
                          else insert (user_doc_id u) (revoked (auth s)))\<rparr>\<rparr>"
  using assms
  by (auto simp add: migrate_claims_body_def fetched_claims_def write_ok_eq Let_def
        get_user_current_claims_eq set_user_claims_eq revoke_user_tokens_eq)


lemma body_split:
  obtains
    (already) "py_truthy (map_of (fetched_claims env s u) ''storeId'')"
  | (no_store) "\<not> py_truthy (map_of (fetched_claims env s u) ''storeId'')"
      "idx (user_doc_id u) = None"
  | (error) info where "\<not> py_truthy (map_of (fetched_claims env s u) ''storeId'')"
      "idx (user_doc_id u) = Some info" "\<not> write_ok env s u info"
  | (migrated) info where "\<not> py_truthy (map_of (fetched_claims env s u) ''storeId'')"
      "idx (user_doc_id u) = Some info" "write_ok env s u info"
  by (cases "idx (user_doc_id u)") auto

subsection \<open>Outcome records and counts\<close>

lemma body_results:
  "results (migrate_claims_body env idx u s) = results s @ [outcome_of env idx u s]"
  unfolding outcome_of_def
  by (cases rule: body_split [where env = env and s = s and u = u and idx = idx])
     (simp_all add: body_already body_no_store body_error body_migrated)

lemma outcome_userId: "o_userId (outcome_of env idx u s) = user_doc_id u"
  unfolding outcome_of_def
  by (cases rule: body_split [where env = env and s = s and u = u and idx = idx])
     (simp_all add: body_already body_no_store body_error body_migrated)

lemma outcome_status:
  "o_status (outcome_of env idx u s) \<in>
     {''migrated'', ''already_has_claims'', ''no_store'', ''error''}"
  unfolding outcome_of_def
  by (cases rule: body_split [where env = env and s = s and u = u and idx = idx])
     (simp_all add: body_already body_no_store body_error body_migrated)

lemma body_stats:
  "st (migrate_claims_body env idx u s) =
     \<lparr>total = total (st s) + 1,
      migrated = migrated (st s) + (if o_status (outcome_of env idx u s) = ''migrated'' then 1 else 0),
      already_has_claims = already_has_claims (st s) +
        (if o_status (outcome_of env idx u s) = ''already_has_claims'' then 1 else 0),
      no_store = no_store (st s) + (if o_status (outcome_of env idx u s) = ''no_store'' then 1 else 0),
      errors = errors (st s) + (if o_status (outcome_of env idx u s) = ''error'' then 1 else 0)\<rparr>"
  unfolding outcome_of_def
  by (cases rule: body_split [where env = env and s = s and u = u and idx = idx])
     (simp_all add: body_already body_no_store body_error body_migrated)

lemma recount_snoc:
  "recount (rs @ [out]) =
     \<lparr>total = total (recount rs) + 1,
      migrated = migrated (recount rs) + (if o_status out = ''migrated'' then 1 else 0),
      already_has_claims = already_has_claims (recount rs) +
        (if o_status out = ''already_has_claims'' then 1 else 0),
      no_store = no_store (recount rs) + (if o_status out = ''no_store'' then 1 else 0),
      errors = errors (recount rs) + (if o_status out = ''error'' then 1 else 0)\<rparr>"
  by (simp add: recount_def count_status_def)

lemma body_recount:
  "st s = recount (results s) \<Longrightarrow>
   st (migrate_claims_body env idx u s) = recount (results (migrate_claims_body env idx u s))"
  by (simp add: body_results body_stats recount_snoc)

lemma loop_recount:
  "st s = recount (results s) \<Longrightarrow>
   st (migrate_claims_loop env idx us s) = recount (results (migrate_claims_loop env idx us s))"
  by (induction us arbitrary: s) (simp_all add: body_recount)

lemma loop_userIds:
  "map o_userId (results (migrate_claims_loop env idx us s)) =
     map o_userId (results s) @ map user_doc_id us"
  by (induction us arbitrary: s) (simp_all add: body_results outcome_userId)

lemma loop_results_prefix:
  "\<exists>tl. results (migrate_claims_loop env idx us s) = results s @ tl"
proof (induction us arbitrary: s)
  case Nil
  show ?case by simp
next
  case (Cons u us)
  from Cons.IH [of "migrate_claims_body env idx u s"]
  show ?case by (auto simp add: body_results)
qed

lemma initial_recount: "initial_stats = recount []"
  by (simp add: initial_stats_def recount_def count_status_def)

lemma recount_sum:
  "(\<forall>out \<in> set rs. o_status out \<in> {''migrated'', ''already_has_claims'', ''no_store'', ''error''})
   \<Longrightarrow> migrated (recount rs) + already_has_claims (recount rs) + no_store (recount rs)
         + errors (recount rs) = total (recount rs)"
  by (induction rs rule: rev_induct) (auto simp add: recount_snoc, simp add: recount_def count_status_def)

lemma loop_statuses:
  "(\<forall>out \<in> set (results s). o_status out \<in> {''migrated'', ''already_has_claims'', ''no_store'', ''error''})
   \<Longrightarrow> (\<forall>out \<in> set (results (migrate_claims_loop env idx us s)).
          o_status out \<in> {''migrated'', ''already_has_claims'', ''no_store'', ''error''})"
proof (induction us arbitrary: s)
  case Nil
  then show ?case by simp
next
  case (Cons u us)
  have "\<forall>out \<in> set (results (migrate_claims_body env idx u s)).
          o_status out \<in> {''migrated'', ''already_has_claims'', ''no_store'', ''error''}"
    using Cons.prems outcome_status [of env idx u s] by (auto simp add: body_results)
  from Cons.IH [OF this] show ?case by simp
qed

text \<open>
  Claim C2.  One iteration appends exactly one outcome record to \<open>results\<close>; that record
  is for the user processed and its status is one of the four strings; \<open>total\<close> grows
  by one, and of the four other counters exactly the one that belongs to the status
  grows by one.  A run raises exactly when building the ownership index raises.  For a
  run that returns: its outcome records are, one for one and in order, for the user
  documents of the collection; the status of each of them is one of the four strings;
  \<open>total\<close> is the number of user documents; and the four per-status counts add up to
  \<open>total\<close>.
\<close>

theorem exactly_one_status:
  "results (migrate_claims_body env idx u s) = results s @ [outcome_of env idx u s]
   \<and> o_userId (outcome_of env idx u s) = user_doc_id u
   \<and> o_status (outcome_of env idx u s) \<in>
       {''migrated'', ''already_has_claims'', ''no_store'', ''error''}
   \<and> total (st (migrate_claims_body env idx u s)) = total (st s) + 1
   \<and> migrated (st (migrate_claims_body env idx u s)) =
       migrated (st s) + (if o_status (outcome_of env idx u s) = ''migrated'' then 1 else 0)
   \<and> already_has_claims (st (migrate_claims_body env idx u s)) =
       already_has_claims (st s) +
       (if o_status (outcome_of env idx u s) = ''already_has_claims'' then 1 else 0)
   \<and> no_store (st (migrate_claims_body env idx u s)) =
       no_store (st s) + (if o_status (outcome_of env idx u s) = ''no_store'' then 1 else 0)
   \<and> errors (st (migrate_claims_body env idx u s)) =
       errors (st s) + (if o_status (outcome_of env idx u s) = ''error'' then 1 else 0)
   \<and> isl (migrate_claims env db a) = isl (get_all_stores db)
   \<and> (migrate_claims env db a = Inr r \<longrightarrow>
         map o_userId (report_results (log_file r)) = map user_doc_id (users db)
       \<and> length (report_results (log_file r)) = length (users db)
       \<and> list_all (\<lambda>out. o_status out \<in>
                     {''migrated'', ''already_has_claims'', ''no_store'', ''error''})
           (report_results (log_file r))
       \<and> total (returned r) = int (length (users db))
       \<and> migrated (returned r) + already_has_claims (returned r) + no_store (returned r)
           + errors (returned r) = total (returned r))"
proof -
  have run: "map o_userId (report_results (log_file r)) = map user_doc_id (users db)
       \<and> length (report_results (log_file r)) = length (users db)
       \<and> list_all (\<lambda>out. o_status out \<in>
                     {''migrated'', ''already_has_claims'', ''no_store'', ''error''})
           (report_results (log_file r))
       \<and> total (returned r) = int (length (users db))
       \<and> migrated (returned r) + already_has_claims (returned r) + no_store (returned r)
           + errors (returned r) = total (returned r)"
    if ret: "migrate_claims env db a = Inr r"
  proof -
    from ret obtain index where i: "get_all_stores db = Inr index"
      using migrate_claims_returns by blast
    let ?init = "\<lparr>st = initial_stats, results = [], auth = a\<rparr>"
    let ?s = "migrate_claims_loop env index (users db) ?init"
    from ret have rr: "returned r = st ?s" and rl: "report_results (log_file r) = results ?s"
      by (auto simp add: migrate_claims_Inr [OF i])
    have rc: "st ?s = recount (results ?s)"
      by (rule loop_recount) (simp add: initial_recount)
    have four: "\<forall>out \<in> set (results ?s).
        o_status out \<in> {''migrated'', ''already_has_claims'', ''no_store'', ''error''}"
      by (rule loop_statuses) simp
    have ids: "map o_userId (results ?s) = map user_doc_id (users db)"
      by (simp add: loop_userIds)
    then have len: "length (results ?s) = length (users db)"
      using length_map by metis
    from rc len have tot: "total (st ?s) = int (length (users db))"
      by (simp add: recount_def)
    from rc four have sum: "migrated (st ?s) + already_has_claims (st ?s) + no_store (st ?s)
        + errors (st ?s) = total (st ?s)"
      using recount_sum [of "results ?s"] by simp
    from four have la: "list_all (\<lambda>out. o_status out \<in>
        {''migrated'', ''already_has_claims'', ''no_store'', ''error''}) (results ?s)"
      by (simp add: list_all_iff)
    from ids len la tot sum show ?thesis
      by (simp add: rr rl)
  qed
  have body: "results (migrate_claims_body env idx u s) = results s @ [outcome_of env idx u s]
   \<and> o_userId (outcome_of env idx u s) = user_doc_id u
   \<and> o_status (outcome_of env idx u s) \<in>
       {''migrated'', ''already_has_claims'', ''no_store'', ''error''}
   \<and> total (st (migrate_claims_body env idx u s)) = total (st s) + 1
   \<and> migrated (st (migrate_claims_body env idx u s)) =
       migrated (st s) + (if o_status (outcome_of env idx u s) = ''migrated'' then 1 else 0)
   \<and> already_has_claims (st (migrate_claims_body env idx u s)) =
       already_has_claims (st s) +
       (if o_status (outcome_of env idx u s) = ''already_has_claims'' then 1 else 0)
   \<and> no_store (st (migrate_claims_body env idx u s)) =
       no_store (st s) + (if o_status (outcome_of env idx u s) = ''no_store'' then 1 else 0)
   \<and> errors (st (migrate_claims_body env idx u s)) =
       errors (st s) + (if o_status (outcome_of env idx u s) = ''error'' then 1 else 0)"
    using outcome_status [of env idx u s]
    by (simp add: body_results outcome_userId body_stats)
  have raises: "isl (migrate_claims env db a) = isl (get_all_stores db)"
    by (cases "get_all_stores db") (simp_all add: migrate_claims_def Let_def)
  from body raises run show ?thesis by blast
qed

theorem exactly_one_status_witness:
  "\<exists>r. migrate_claims no_faults example_db example_auth = Inr r
       \<and> map o_userId (report_results (log_file r)) = [''u1'', ''u2'', ''u3'']
       \<and> map o_status (report_results (log_file r)) =
           [''migrated'', ''already_has_claims'', ''no_store'']
       \<and> total (returned r) = 3
       \<and> migrated (returned r) + already_has_claims (returned r) + no_store (returned r)
           + errors (returned r) = 3"
proof -
  let ?s = "migrate_claims_loop no_faults example_index (users example_db)
              \<lparr>st = initial_stats, results = [], auth = example_auth\<rparr>"
  let ?r = "\<lparr>returned = st ?s,
             log_file = \<lparr>report_stats = st ?s, report_results = results ?s\<rparr>,
             auth_after = auth ?s\<rparr>"
  have m: "migrate_claims no_faults example_db example_auth = Inr ?r"
    by (rule migrate_claims_Inr [OF example_db_index])
  have us: "map user_doc_id (users example_db) = [''u1'', ''u2'', ''u3'']"
    by (simp add: example_defs)
  have n: "int (length (users example_db)) = 3"
    by (simp add: example_defs)
  have o: "map o_status (report_results (log_file ?r)) =
      [''migrated'', ''already_has_claims'', ''no_store'']"
    by code_simp
  from m exactly_one_status [where env = no_faults and db = example_db and a = example_auth
      and r = ?r]
  have "map o_userId (report_results (log_file ?r)) = map user_doc_id (users example_db)
      \<and> total (returned ?r) = int (length (users example_db))
      \<and> migrated (returned ?r) + already_has_claims (returned ?r) + no_store (returned ?r)
          + errors (returned ?r) = total (returned ?r)"
    by blast
  with m o us n show ?thesis
    by (intro exI [of _ ?r]) simp
qed

text \<open>
  Claim C8.  When a run returns and so writes its log: the counts written to the log
  file are the counts obtained by counting again, per status, the outcome records
  written beside them; \<open>total\<close> is the number of records, which is the number of user
  documents; the records appear in the order in which the users were processed; and the
  counts returned are those of the log.
\<close>

theorem report_completeness:
  assumes "migrate_claims env db a = Inr r"
  shows "report_stats (log_file r) = recount (report_results (log_file r))
       \<and> total (report_stats (log_file r)) = int (length (report_results (log_file r)))
       \<and> length (report_results (log_file r)) = length (users db)
       \<and> map o_userId (report_results (log_file r)) = map user_doc_id (users db)
       \<and> returned r = report_stats (log_file r)"
proof -
  from assms obtain idx where i: "get_all_stores db = Inr idx"
    using migrate_claims_returns by blast
  let ?init = "\<lparr>st = initial_stats, results = [], auth = a\<rparr>"
  let ?s = "migrate_claims_loop env idx (users db) ?init"
  from assms have rr: "returned r = st ?s" and rs: "report_stats (log_file r) = st ?s"
    and rl: "report_results (log_file r) = results ?s"
    by (auto simp add: migrate_claims_Inr [OF i])
  have r: "st ?s = recount (results ?s)"
    by (rule loop_recount) (simp add: initial_recount)
  have m: "map o_userId (results ?s) = map user_doc_id (users db)"
    by (simp add: loop_userIds)
  from m have l: "length (results ?s) = length (users db)"
    using length_map by metis
  from r have t: "total (st ?s) = int (length (results ?s))"
    by (simp add: recount_def)
  from r m l t show ?thesis
    by (simp add: rr rs rl)
qed

theorem report_completeness_witness:
  "\<exists>r. migrate_claims no_faults example_db example_auth = Inr r
       \<and> report_stats (log_file r) =
           \<lparr>total = 3, migrated = 1, already_has_claims = 1, no_store = 1, errors = 0\<rparr>
       \<and> recount (report_results (log_file r)) =
           \<lparr>total = 3, migrated = 1, already_has_claims = 1, no_store = 1, errors = 0\<rparr>
       \<and> length (report_results (log_file r)) = 3
       \<and> map o_userId (report_results (log_file r)) = [''u1'', ''u2'', ''u3'']
       \<and> returned r =
           \<lparr>total = 3, migrated = 1, already_has_claims = 1, no_store = 1, errors = 0\<rparr>"
proof -
  let ?s = "migrate_claims_loop no_faults example_index (users example_db)
              \<lparr>st = initial_stats, results = [], auth = example_auth\<rparr>"
  let ?r = "\<lparr>returned = st ?s,
             log_file = \<lparr>report_stats = st ?s, report_results = results ?s\<rparr>,
             auth_after = auth ?s\<rparr>"
  have m: "migrate_claims no_faults example_db example_auth = Inr ?r"
    by (rule migrate_claims_Inr [OF example_db_index])
  have us: "map user_doc_id (users example_db) = [''u1'', ''u2'', ''u3'']"
    by (simp add: example_defs)
  have n: "length (users example_db) = 3"
    by (simp add: example_defs)
  have k: "report_stats (log_file ?r) =
      \<lparr>total = 3, migrated = 1, already_has_claims = 1, no_store = 1, errors = 0\<rparr>"
    by code_simp
  from report_completeness [OF m] k us n
  have "recount (report_results (log_file ?r)) =
        \<lparr>total = 3, migrated = 1, already_has_claims = 1, no_store = 1, errors = 0\<rparr>
      \<and> length (report_results (log_file ?r)) = 3
      \<and> map o_userId (report_results (log_file ?r)) = [''u1'', ''u2'', ''u3'']
      \<and> returned ?r =
        \<lparr>total = 3, migrated = 1, already_has_claims = 1, no_store = 1, errors = 0\<rparr>"
    by simp
  with m k show ?thesis
    by (intro exI [of _ ?r]) simp
qed



subsection \<open>Users that already carry claims; failing writes and fetches\<close>

text \<open>
  Claim C4.  When the claim set fetched for a user has a non-empty \<open>storeId\<close>, the
  outcome is \<open>already_has_claims\<close> and carries the fetched \<open>storeId\<close> and \<open>role\<close>;
  the only call made to the authentication service is the \<open>get_user\<close> call, so no
  claims are written and no tokens revoked, and the accounts are left as they were.
\<close>

theorem short_circuit:
  assumes "py_truthy (map_of (fetched_claims env s u) ''storeId'')"
  shows "outcome_of env idx u s =
           \<lparr>o_userId = user_doc_id u,
            o_email = (case email u of None \<Rightarrow> ''N/A'' | Some e \<Rightarrow> e),
            o_status = ''already_has_claims'',
            o_storeId = map_of (fetched_claims env s u) ''storeId'',
            o_role = map_of (fetched_claims env s u) ''role''\<rparr>
       \<and> calls (auth (migrate_claims_body env idx u s)) =
           calls (auth s) @ [GetUser (user_doc_id u)]
       \<and> accounts (auth (migrate_claims_body env idx u s)) = accounts (auth s)
       \<and> revoked (auth (migrate_claims_body env idx u s)) = revoked (auth s)"
  by (simp add: outcome_of_def body_already [OF assms])

theorem short_circuit_witness:
  "get_all_stores example_db = Inr example_index
   \<and> py_truthy (map_of (fetched_claims no_faults example_state user_u2) ''storeId'')
   \<and> outcome_of no_faults example_index user_u2 example_state =
       \<lparr>o_userId = ''u2'', o_email = ''b@x.com'', o_status = ''already_has_claims'',
        o_storeId = Some ''S9'', o_role = Some ''owner''\<rparr>
   \<and> calls (auth (migrate_claims_body no_faults example_index user_u2
        example_state)) = [GetUser ''u2'']"
proof -
  have h: "py_truthy (map_of (fetched_claims no_faults example_state user_u2) ''storeId'')"
    by (simp add: fetched_claims_eq example_defs py_truthy_def)
  show ?thesis
    using example_db_index h short_circuit [OF h, of example_index]
    by (simp add: fetched_claims_eq example_defs)
qed


text \<open>
  Claim C5.  When an iteration reaches the claim write (the fetched claim set has no
  non-empty \<open>storeId\<close> and the user owns a store) and the write fails, the outcome is
  \<open>error\<close>; the calls made are the \<open>get_user\<close> call and the failed write, with no
  call to revoke tokens, and accounts and revoked tokens are as before; \<open>errors\<close> and
  \<open>total\<close> grow by one and the other counts stay; and the loop goes on: each of the
  remaining users gets its outcome record after this one.
\<close>

theorem write_failure:
  assumes "\<not> py_truthy (map_of (fetched_claims env s u) ''storeId'')"
    and "idx (user_doc_id u) = Some info"
    and "\<not> write_ok env s u info"
  shows "outcome_of env idx u s =
           \<lparr>o_userId = user_doc_id u,
            o_email = (case email u of None \<Rightarrow> ''N/A'' | Some e \<Rightarrow> e),
            o_status = ''error'', o_storeId = None, o_role = None\<rparr>
       \<and> calls (auth (migrate_claims_body env idx u s)) =
           calls (auth s) @
             [GetUser (user_doc_id u),
              SetCustomUserClaims (user_doc_id u)
                [(''storeId'', storeId info), (''role'', ''owner'')]]
       \<and> accounts (auth (migrate_claims_body env idx u s)) = accounts (auth s)
       \<and> revoked (auth (migrate_claims_body env idx u s)) = revoked (auth s)
       \<and> st (migrate_claims_body env idx u s) =
           (st s)\<lparr>total := total (st s) + 1, errors := errors (st s) + 1\<rparr>
       \<and> map o_userId (results (migrate_claims_loop env idx (u # rest) s)) =
           map o_userId (results s) @ user_doc_id u # map user_doc_id rest
       \<and> results (migrate_claims_loop env idx (u # rest) s) ! length (results s) =
           outcome_of env idx u s"
proof -
  let ?s' = "migrate_claims_body env idx u s"
  have b: "?s' = \<lparr>st = (st s)\<lparr>total := total (st s) + 1, errors := errors (st s) + 1\<rparr>,
      results = results s @
        [\<lparr>o_userId = user_doc_id u,
          o_email = (case email u of None \<Rightarrow> ''N/A'' | Some e \<Rightarrow> e),
          o_status = ''error'', o_storeId = None, o_role = None\<rparr>],
      auth = (auth s)\<lparr>calls := calls (auth s) @
                [GetUser (user_doc_id u),
                 SetCustomUserClaims (user_doc_id u)
                   [(''storeId'', storeId info), (''role'', ''owner'')]]\<rparr>\<rparr>"
    using assms by (rule body_error [where idx = idx])
  have ids: "map o_userId (results (migrate_claims_loop env idx (u # rest) s)) =
      map o_userId (results s) @ user_doc_id u # map user_doc_id rest"
    by (simp add: loop_userIds body_results outcome_userId)
  have pre: "\<exists>tl. results (migrate_claims_loop env idx rest ?s') = results ?s' @ tl"
    by (rule loop_results_prefix)
  then obtain tl where tl: "results (migrate_claims_loop env idx rest ?s') = results ?s' @ tl" ..
  have nth: "results (migrate_claims_loop env idx (u # rest) s) ! length (results s) =
      outcome_of env idx u s"
    by (simp add: tl body_results nth_append)
  show ?thesis
    using ids nth by (simp add: outcome_of_def b)
qed


theorem write_failure_witness:
  "get_all_stores example_db = Inr example_index
   \<and> \<not> py_truthy (map_of (fetched_claims failing_write example_state user_u1) ''storeId'')
   \<and> example_index (user_doc_id user_u1) =
       Some \<lparr>storeId = ''S1'', storeName = FString ''Acme''\<rparr>
   \<and> \<not> write_ok failing_write example_state user_u1 \<lparr>storeId = ''S1'', storeName = FString ''Acme''\<rparr>
   \<and> outcome_of failing_write example_index user_u1 example_state =
       \<lparr>o_userId = ''u1'', o_email = ''a@x.com'', o_status = ''error'',
        o_storeId = None, o_role = None\<rparr>
   \<and> calls (auth (migrate_claims_body failing_write example_index user_u1
        example_state)) =
       [GetUser ''u1'', SetCustomUserClaims ''u1'' [(''storeId'', ''S1''), (''role'', ''owner'')]]
   \<and> errors (st (migrate_claims_body failing_write example_index user_u1
        example_state)) = 1
   \<and> map o_userId (results (migrate_claims_loop failing_write example_index
        [user_u1, user_u2, user_u3] example_state)) = [''u1'', ''u2'', ''u3'']"
proof -
  let ?info = "\<lparr>storeId = ''S1'', storeName = FString ''Acme''\<rparr>"
  have h1: "\<not> py_truthy (map_of (fetched_claims failing_write example_state user_u1) ''storeId'')"
    by (simp add: fetched_claims_eq example_defs py_truthy_def)
  have h2: "example_index (user_doc_id user_u1) = Some ?info"
    by (simp add: example_index_def user_u1_def)
  have h3: "\<not> write_ok failing_write example_state user_u1 ?info"
    by (simp add: write_ok_eq example_defs)
  have r: "results example_state = []"
    by (simp add: example_state_def)
  have e: "errors (st example_state) = 0"
    by (simp add: example_state_def initial_stats_def)
  have c: "calls (auth example_state) = []"
    by (simp add: example_state_def example_auth_def)
  show ?thesis
    using example_db_index h1 h2 h3 write_failure [where idx = example_index and rest = "[user_u2, user_u3]",
        OF h1 h2 h3]
    by (simp add: r e c user_u1_def user_u2_def user_u3_def)
qed

text \<open>
  Claim C7.  When the \<open>get_user\<close> call for a user raises, the current claim set is taken
  to be empty and the iteration goes on to the ownership index: the outcome is
  \<open>no_store\<close> when the user owns no store, and otherwise \<open>migrated\<close> or \<open>error\<close>
  according to whether the claim write succeeds.  So the status is \<open>error\<close> only when a
  write was attempted and failed, and the run goes on with the remaining users.
\<close>

theorem fetch_failure_degrades:
  assumes "fetch_raises env s u"
  shows "get_user_current_claims env (user_doc_id u) (auth s) =
           ([], (auth s)\<lparr>calls := calls (auth s) @ [GetUser (user_doc_id u)]\<rparr>)
       \<and> o_status (outcome_of env idx u s) =
           (case idx (user_doc_id u) of
              None \<Rightarrow> ''no_store''
            | Some info \<Rightarrow> if write_ok env s u info then ''migrated'' else ''error'')
       \<and> ((o_status (outcome_of env idx u s) = ''error'') =
            (\<exists>info. idx (user_doc_id u) = Some info \<and> \<not> write_ok env s u info))
       \<and> map o_userId (results (migrate_claims_loop env idx (u # rest) s)) =
           map o_userId (results s) @ user_doc_id u # map user_doc_id rest"
proof -
  have c: "get_user_current_claims env (user_doc_id u) (auth s) =
      ([], (auth s)\<lparr>calls := calls (auth s) @ [GetUser (user_doc_id u)]\<rparr>)"
    using assms by (auto simp add: get_user_current_claims_eq fetch_raises_eq)
  then have f: "fetched_claims env s u = []"
    by (simp add: fetched_claims_def)
  then have n: "\<not> py_truthy (map_of (fetched_claims env s u) ''storeId'')"
    by (simp add: py_truthy_def)
  have o: "o_status (outcome_of env idx u s) =
      (case idx (user_doc_id u) of
         None \<Rightarrow> ''no_store''
       | Some info \<Rightarrow> if write_ok env s u info then ''migrated'' else ''error'')"
  proof (cases "idx (user_doc_id u)")
    case None
    with n show ?thesis by (simp add: outcome_of_def body_no_store)
  next
    case (Some info)
    with n show ?thesis
      by (cases "write_ok env s u info")
         (simp_all add: outcome_of_def body_migrated [where info = info]
            body_error [where info = info])
  qed
  have e: "(o_status (outcome_of env idx u s) = ''error'') =
      (\<exists>info. idx (user_doc_id u) = Some info \<and> \<not> write_ok env s u info)"
    by (cases "idx (user_doc_id u)") (simp_all add: o)
  have ids: "map o_userId (results (migrate_claims_loop env idx (u # rest) s)) =
      map o_userId (results s) @ user_doc_id u # map user_doc_id rest"
    by (simp add: loop_userIds body_results outcome_userId)
  from c o e ids show ?thesis by blast
qed

theorem fetch_failure_degrades_witness:
  "get_all_stores example_db = Inr example_index
   \<and> fetch_raises failing_fetch example_state user_u1
   \<and> fetch_raises failing_fetch example_state user_u3
   \<and> o_status (outcome_of failing_fetch example_index user_u1 example_state) =
       ''migrated''
   \<and> o_status (outcome_of failing_fetch example_index user_u3 example_state) =
       ''no_store''"
proof -
  have h1: "fetch_raises failing_fetch example_state user_u1"
    by (simp add: fetch_raises_eq example_defs)
  have h3: "fetch_raises failing_fetch example_state user_u3"
    by (simp add: fetch_raises_eq example_defs)
  have w: "write_ok failing_fetch example_state user_u1 \<lparr>storeId = ''S1'', storeName = FString ''Acme''\<rparr>"
    by (simp add: write_ok_eq example_defs)
  have i1: "example_index (user_doc_id user_u1) =
      Some \<lparr>storeId = ''S1'', storeName = FString ''Acme''\<rparr>"
    by (simp add: example_index_def user_u1_def)
  have i3: "example_index (user_doc_id user_u3) = None"
    by (simp add: example_index_def user_u3_def)
  show ?thesis
    using example_db_index h1 h3
      fetch_failure_degrades [OF h1, of example_index "[]"]
      fetch_failure_degrades [OF h3, of example_index "[]"]
    by (simp add: w i1 i3)
qed



subsection \<open>Users that own no store\<close>

lemma index_None:
  assumes "get_all_stores db = Inr idx"
    and "\<forall>d \<in> set (stores db). ownerId d \<noteq> Some owner"
  shows "idx owner = None"
proof -
  have "find (\<lambda>d. ownerId d = Some owner) (rev (stores db)) = None"
    using assms(2) by (simp add: find_None_iff)
  moreover from assms(1) have "get_all_stores_loop (stores db) Map.empty = Inr idx"
    by (simp add: get_all_stores_def)
  ultimately show ?thesis
    by (simp add: get_all_stores_loop_lookup)
qed

text \<open>
  Claim C3, as the script behaves.  The ownership index \<open>idx\<close> is the one built from
  the stores.  For a user whose id is the \<open>ownerId\<close> of no store, the outcome is
  \<open>no_store\<close> when the fetched claim set has no non-empty \<open>storeId\<close> (also when the
  fetch failed), and \<open>already_has_claims\<close> when it has one: the check of the current
  claims comes before the lookup in the ownership index.  In both cases the only call
  to the authentication service is the \<open>get_user\<close> call.
\<close>

theorem no_store_unless_claimed:
  assumes "get_all_stores db = Inr idx"
    and "\<forall>d \<in> set (stores db). ownerId d \<noteq> Some (user_doc_id u)"
  shows "o_status (outcome_of env idx u s) =
           (if py_truthy (map_of (fetched_claims env s u) ''storeId'')
            then ''already_has_claims'' else ''no_store'')
       \<and> calls (auth (migrate_claims_body env idx u s)) =
           calls (auth s) @ [GetUser (user_doc_id u)]
       \<and> accounts (auth (migrate_claims_body env idx u s)) = accounts (auth s)
       \<and> revoked (auth (migrate_claims_body env idx u s)) = revoked (auth s)"
proof -
  have i: "idx (user_doc_id u) = None"
    using assms by (rule index_None)
  show ?thesis
  proof (cases "py_truthy (map_of (fetched_claims env s u) ''storeId'')")
    case True
    then show ?thesis by (simp add: outcome_of_def body_already)
  next
    case False
    then show ?thesis
      by (simp add: outcome_of_def body_no_store [where idx = idx, OF False i])
  qed
qed

theorem no_store_unless_claimed_witness:
  "get_all_stores example_db = Inr example_index
   \<and> list_all (\<lambda>d. ownerId d \<noteq> Some (user_doc_id user_u3)) (stores example_db)
   \<and> o_status (outcome_of no_faults example_index user_u3 example_state) = ''no_store''
   \<and> calls (auth (migrate_claims_body no_faults example_index user_u3 example_state)) =
       [GetUser ''u3'']"
proof -
  have h: "\<forall>d \<in> set (stores example_db). ownerId d \<noteq> Some (user_doc_id user_u3)"
    by (simp add: example_db_def user_u3_def)
  have f: "fetched_claims no_faults example_state user_u3 = []"
    by (simp add: fetched_claims_eq example_defs)
  have c: "calls (auth example_state) = []"
    by (simp add: example_state_def example_auth_def)
  have l: "list_all (\<lambda>d. ownerId d \<noteq> Some (user_doc_id user_u3)) (stores example_db)"
    by (simp add: example_db_def user_u3_def)
  have n: "user_doc_id user_u3 = ''u3''"
    by (simp add: user_u3_def)
  show ?thesis
    using example_db_index l
      no_store_unless_claimed [OF example_db_index h, of no_faults example_state]
    by (simp add: f c n py_truthy_def)
qed

text \<open>
  Claim C3 as stated fails for user u2 of the example: no store has u2 as owner, the
  service holds the claim \<open>storeId = S9\<close> for u2, and the outcome is
  \<open>already_has_claims\<close>, not \<open>no_store\<close>.
\<close>

theorem no_store_counterexample:
  "get_all_stores example_db = Inr example_index
   \<and> list_all (\<lambda>d. ownerId d \<noteq> Some (user_doc_id user_u2)) (stores example_db)
   \<and> example_index (user_doc_id user_u2) = None
   \<and> has_store_claim (auth example_state) (user_doc_id user_u2)
   \<and> o_status (outcome_of no_faults example_index user_u2 example_state) =
       ''already_has_claims''
   \<and> o_status (outcome_of no_faults example_index user_u2 example_state) \<noteq> ''no_store''"
proof -
  have t: "py_truthy (map_of (fetched_claims no_faults example_state user_u2) ''storeId'')"
    by (simp add: fetched_claims_eq example_defs py_truthy_def)
  have o: "o_status (outcome_of no_faults example_index user_u2 example_state) =
      ''already_has_claims''"
    by (simp add: outcome_of_def body_already [OF t])
  have l: "list_all (\<lambda>d. ownerId d \<noteq> Some (user_doc_id user_u2)) (stores example_db)"
    by (simp add: example_db_def user_u2_def)
  have i: "example_index (user_doc_id user_u2) = None"
    by (simp add: example_index_def user_u2_def)
  have c: "has_store_claim (auth example_state) (user_doc_id user_u2)"
    by (simp add: has_store_claim_def example_defs py_truthy_def)
  from example_db_index l i c o show ?thesis by simp
qed



subsection \<open>Runs over an empty ownership index\<close>

lemma get_all_stores_loop_skip:
  "(\<forall>d \<in> set docs. \<not> py_truthy (ownerId d)) \<Longrightarrow> get_all_stores_loop docs m = Inr m"
  by (induction docs arbitrary: m) simp_all

lemma body_unowned:
  assumes "idx (user_doc_id u) = None"
  shows "calls (auth (migrate_claims_body env idx u s)) = calls (auth s) @ [GetUser (user_doc_id u)]"
    and "accounts (auth (migrate_claims_body env idx u s)) = accounts (auth s)"
    and "revoked (auth (migrate_claims_body env idx u s)) = revoked (auth s)"
    and "migrated (st (migrate_claims_body env idx u s)) = migrated (st s)"
    and "errors (st (migrate_claims_body env idx u s)) = errors (st s)"
  using assms
  by (cases "py_truthy (map_of (fetched_claims env s u) ''storeId'')";
      simp add: body_already body_no_store)+

lemma loop_unowned:
  assumes "\<forall>u \<in> set us. idx (user_doc_id u) = None"
  shows "calls (auth (migrate_claims_loop env idx us s)) =
           calls (auth s) @ map (\<lambda>u. GetUser (user_doc_id u)) us
       \<and> accounts (auth (migrate_claims_loop env idx us s)) = accounts (auth s)
       \<and> revoked (auth (migrate_claims_loop env idx us s)) = revoked (auth s)
       \<and> migrated (st (migrate_claims_loop env idx us s)) = migrated (st s)
       \<and> errors (st (migrate_claims_loop env idx us s)) = errors (st s)"
  using assms
proof (induction us arbitrary: s)
  case Nil
  show ?case by simp
next
  case (Cons u us)
  from Cons.prems have i: "idx (user_doc_id u) = None" by simp
  from Cons.prems have r: "\<forall>u \<in> set us. idx (user_doc_id u) = None" by simp
  show ?case
    using Cons.IH [OF r, where s = "migrate_claims_body env idx u s"]
    by (simp add: body_unowned [where idx = idx, OF i])
qed

lemma count_status_zero:
  "count_status x rs = 0 \<Longrightarrow> \<forall>out \<in> set rs. o_status out \<noteq> x"
  by (auto simp add: count_status_def filter_empty_conv)

text \<open>
  Claim C10.  When no store document has a non-empty \<open>ownerId\<close>, the ownership index
  is built and is empty, and the run returns having only read from the authentication
  service: its calls are one \<open>get_user\<close> per user, in order; the accounts and the
  revoked tokens are as before the run; every outcome is \<open>already_has_claims\<close> or
  \<open>no_store\<close>; and the counts \<open>migrated\<close> and \<open>errors\<close> are zero.
\<close>

theorem empty_index_no_mutation:
  assumes "\<forall>d \<in> set (stores db). \<not> py_truthy (ownerId d)"
  shows "get_all_stores db = Inr Map.empty
       \<and> (\<exists>r. migrate_claims env db a = Inr r
            \<and> calls (auth_after r) = calls a @ map (\<lambda>u. GetUser (user_doc_id u)) (users db)
            \<and> accounts (auth_after r) = accounts a
            \<and> revoked (auth_after r) = revoked a
            \<and> (\<forall>out \<in> set (report_results (log_file r)).
                 o_status out \<in> {''already_has_claims'', ''no_store''})
            \<and> migrated (returned r) = 0
            \<and> errors (returned r) = 0)"
proof -
  let ?init = "\<lparr>st = initial_stats, results = [], auth = a\<rparr>"
  let ?s = "migrate_claims_loop env Map.empty (users db) ?init"
  let ?r = "\<lparr>returned = st ?s,
             log_file = \<lparr>report_stats = st ?s, report_results = results ?s\<rparr>,
             auth_after = auth ?s\<rparr>"
  have e: "get_all_stores db = Inr Map.empty"
    using assms by (simp add: get_all_stores_def get_all_stores_loop_skip)
  have ret: "migrate_claims env db a = Inr ?r"
    by (rule migrate_claims_Inr [OF e])
  have "\<forall>u \<in> set (users db). Map.empty (user_doc_id u) = (None :: store_info option)"
    by simp
  from loop_unowned [where idx = Map.empty and env = env and s = ?init, OF this]
  have c: "calls (auth ?s) = calls a @ map (\<lambda>u. GetUser (user_doc_id u)) (users db)"
    and k: "accounts (auth ?s) = accounts a"
    and v: "revoked (auth ?s) = revoked a"
    and m: "migrated (st ?s) = 0"
    and r: "errors (st ?s) = 0"
    by (simp_all add: initial_stats_def)
  have rc: "st ?s = recount (results ?s)"
    by (rule loop_recount) (simp add: initial_recount)
  have four: "\<forall>out \<in> set (results ?s).
      o_status out \<in> {''migrated'', ''already_has_claims'', ''no_store'', ''error''}"
    by (rule loop_statuses) simp
  from rc m have "count_status ''migrated'' (results ?s) = 0"
    by (simp add: recount_def)
  then have nm: "\<forall>out \<in> set (results ?s). o_status out \<noteq> ''migrated''"
    by (rule count_status_zero)
  from rc r have "count_status ''error'' (results ?s) = 0"
    by (simp add: recount_def)
  then have ne: "\<forall>out \<in> set (results ?s). o_status out \<noteq> ''error''"
    by (rule count_status_zero)
  from four nm ne have two: "\<forall>out \<in> set (results ?s).
      o_status out \<in> {''already_has_claims'', ''no_store''}"
    by blast
  have "calls (auth_after ?r) = calls a @ map (\<lambda>u. GetUser (user_doc_id u)) (users db)
      \<and> accounts (auth_after ?r) = accounts a
      \<and> revoked (auth_after ?r) = revoked a
      \<and> (\<forall>out \<in> set (report_results (log_file ?r)).
           o_status out \<in> {''already_has_claims'', ''no_store''})
      \<and> migrated (returned ?r) = 0
      \<and> errors (returned ?r) = 0"
    using c k v two m r by simp
  with ret have "\<exists>r. migrate_claims env db a = Inr r
      \<and> calls (auth_after r) = calls a @ map (\<lambda>u. GetUser (user_doc_id u)) (users db)
      \<and> accounts (auth_after r) = accounts a
      \<and> revoked (auth_after r) = revoked a
      \<and> (\<forall>out \<in> set (report_results (log_file r)).
           o_status out \<in> {''already_has_claims'', ''no_store''})
      \<and> migrated (returned r) = 0
      \<and> errors (returned r) = 0"
    by (intro exI [of _ ?r] conjI) blast+
  with e show ?thesis by blast
qed

theorem empty_index_no_mutation_witness:
  "list_all (\<lambda>d. \<not> py_truthy (ownerId d)) (stores unowned_db)
   \<and> get_all_stores unowned_db = Inr Map.empty
   \<and> (\<exists>r. migrate_claims no_faults unowned_db example_auth = Inr r
        \<and> calls (auth_after r) = [GetUser ''u1'', GetUser ''u2'', GetUser ''u3'']
        \<and> map o_status (report_results (log_file r)) =
            [''no_store'', ''already_has_claims'', ''no_store'']
        \<and> migrated (returned r) = 0
        \<and> errors (returned r) = 0)"
proof -
  have h: "\<forall>d \<in> set (stores unowned_db). \<not> py_truthy (ownerId d)"
    by (simp add: unowned_db_def py_truthy_def)
  have l: "list_all (\<lambda>d. \<not> py_truthy (ownerId d)) (stores unowned_db)"
    by (simp add: unowned_db_def py_truthy_def)
  have u: "users unowned_db = [user_u1, user_u2, user_u3]"
    by (simp add: unowned_db_def)
  have c: "calls example_auth = []"
    by (simp add: example_auth_def)
  note t = empty_index_no_mutation [OF h, of no_faults example_auth]
  from t have e: "get_all_stores unowned_db = Inr Map.empty"
    by blast
  from t obtain r where ret: "migrate_claims no_faults unowned_db example_auth = Inr r"
    and cl: "calls (auth_after r) =
      calls example_auth @ map (\<lambda>u. GetUser (user_doc_id u)) (users unowned_db)"
    and m: "migrated (returned r) = 0" and er: "errors (returned r) = 0"
    by blast
  let ?s = "migrate_claims_loop no_faults Map.empty (users unowned_db)
              \<lparr>st = initial_stats, results = [], auth = example_auth\<rparr>"
  from ret migrate_claims_Inr [OF e, of no_faults example_auth]
  have rl: "report_results (log_file r) = results ?s"
    by auto
  have "map o_status (results ?s) = [''no_store'', ''already_has_claims'', ''no_store'']"
    by code_simp
  with rl have o: "map o_status (report_results (log_file r)) =
      [''no_store'', ''already_has_claims'', ''no_store'']"
    by simp
  from cl have cl': "calls (auth_after r) = [GetUser ''u1'', GetUser ''u2'', GetUser ''u3'']"
    by (simp add: u c user_u1_def user_u2_def user_u3_def)
  show ?thesis
    by (intro conjI exI [of _ r]) (simp_all add: l e ret cl' o m er)
qed



subsection \<open>Revoking tokens\<close>

lemma body_agree:
  assumes "agree_up_to_revoked s t"
  shows "agree_up_to_revoked
           (migrate_claims_body (env\<lparr>revoke_fails := r\<rparr>) idx u s)
           (migrate_claims_body env idx u t)"
proof -
  let ?env = "env\<lparr>revoke_fails := r\<rparr>"
  from assms have a: "accounts (auth s) = accounts (auth t)"
    and c: "calls (auth s) = calls (auth t)"
    and k: "st s = st t" and rs: "results s = results t"
    by (simp_all add: agree_up_to_revoked_def)
  have f: "fetched_claims ?env s u = fetched_claims env t u"
    by (simp add: fetched_claims_eq a)
  have w: "\<And>info. write_ok ?env s u info = write_ok env t u info"
    by (simp add: write_ok_eq a)
  show ?thesis
  proof (cases rule: body_split [where env = env and s = t and u = u and idx = idx])
    case already
    then show ?thesis
      by (simp add: agree_up_to_revoked_def body_already f a c k rs)
  next
    case no_store
    then show ?thesis
      by (simp add: agree_up_to_revoked_def body_no_store f a c k rs)
  next
    case (error info)
    then show ?thesis
      by (simp add: agree_up_to_revoked_def body_error [where info = info] f w a c k rs)
  next
    case (migrated info)
    then show ?thesis
      by (simp add: agree_up_to_revoked_def body_migrated [where info = info] f w a c k rs)
  qed
qed

lemma loop_agree:
  "agree_up_to_revoked s t \<Longrightarrow>
   agree_up_to_revoked
     (migrate_claims_loop (env\<lparr>revoke_fails := r\<rparr>) idx us s)
     (migrate_claims_loop env idx us t)"
  by (induction us arbitrary: s t) (simp_all add: body_agree)

lemma agree_refl: "agree_up_to_revoked s s"
  by (simp add: agree_up_to_revoked_def)

lemma outcome_migrated_iff:
  "(o_status (outcome_of env idx u s) = ''migrated'') =
     (\<not> py_truthy (map_of (fetched_claims env s u) ''storeId'')
      \<and> (\<exists>info. idx (user_doc_id u) = Some info \<and> write_ok env s u info))"
  by (cases rule: body_split [where env = env and s = s and u = u and idx = idx])
     (simp_all add: outcome_of_def body_already body_no_store
        body_error [where idx = idx] body_migrated [where idx = idx])

text \<open>
  Claim C6.  The status of a user is \<open>migrated\<close> exactly when the iteration got past
  the two checks (no non-empty \<open>storeId\<close> fetched, a store found in the index) and the
  claim write succeeded.  Whether revoking the tokens then succeeds or fails makes no
  difference to the outcome record or to the counts, for one iteration and for a whole
  run: the two runs raise the same error or return the same counts and write the same
  log.
\<close>

theorem revoke_never_changes_status:
  "((o_status (outcome_of env idx u s) = ''migrated'') =
      (\<not> py_truthy (map_of (fetched_claims env s u) ''storeId'')
       \<and> (\<exists>info. idx (user_doc_id u) = Some info \<and> write_ok env s u info)))
   \<and> outcome_of (env\<lparr>revoke_fails := r\<rparr>) idx u s = outcome_of env idx u s
   \<and> st (migrate_claims_body (env\<lparr>revoke_fails := r\<rparr>) idx u s) =
       st (migrate_claims_body env idx u s)
   \<and> map_sum id returned (migrate_claims (env\<lparr>revoke_fails := r\<rparr>) db a) =
       map_sum id returned (migrate_claims env db a)
   \<and> map_sum id log_file (migrate_claims (env\<lparr>revoke_fails := r\<rparr>) db a) =
       map_sum id log_file (migrate_claims env db a)"
proof -
  let ?env = "env\<lparr>revoke_fails := r\<rparr>"
  have b: "agree_up_to_revoked (migrate_claims_body ?env idx u s) (migrate_claims_body env idx u s)"
    by (rule body_agree) (rule agree_refl)
  then have o: "outcome_of ?env idx u s = outcome_of env idx u s"
    by (simp add: outcome_of_def agree_up_to_revoked_def)
  from b have k: "st (migrate_claims_body ?env idx u s) = st (migrate_claims_body env idx u s)"
    by (simp add: agree_up_to_revoked_def)
  let ?init = "\<lparr>st = initial_stats, results = [], auth = a\<rparr>"
  have run: "map_sum id returned (migrate_claims ?env db a) =
        map_sum id returned (migrate_claims env db a)
      \<and> map_sum id log_file (migrate_claims ?env db a) =
        map_sum id log_file (migrate_claims env db a)"
  proof (cases "get_all_stores db")
    case (Inl e)
    then show ?thesis by (simp add: migrate_claims_def)
  next
    case (Inr index)
    have "agree_up_to_revoked
        (migrate_claims_loop ?env index (users db) ?init)
        (migrate_claims_loop env index (users db) ?init)"
      by (rule loop_agree) (rule agree_refl)
    then show ?thesis
      by (simp add: migrate_claims_Inr [OF Inr] agree_up_to_revoked_def)
  qed
  from outcome_migrated_iff [of env idx u s] o k run show ?thesis
    by blast
qed

theorem revoke_never_changes_status_witness:
  "map_sum id returned
     (migrate_claims (no_faults\<lparr>revoke_fails := (\<lambda>u. True)\<rparr>) example_db example_auth) =
     Inr \<lparr>total = 3, migrated = 1, already_has_claims = 1, no_store = 1, errors = 0\<rparr>
   \<and> map_sum id returned (migrate_claims no_faults example_db example_auth) =
     Inr \<lparr>total = 3, migrated = 1, already_has_claims = 1, no_store = 1, errors = 0\<rparr>
   \<and> o_status (outcome_of (no_faults\<lparr>revoke_fails := (\<lambda>u. True)\<rparr>) example_index user_u1
        example_state) = ''migrated''"
proof -
  let ?s = "migrate_claims_loop no_faults example_index (users example_db)
              \<lparr>st = initial_stats, results = [], auth = example_auth\<rparr>"
  have k: "st ?s = \<lparr>total = 3, migrated = 1, already_has_claims = 1, no_store = 1, errors = 0\<rparr>"
    by code_simp
  have p: "map_sum id returned (migrate_claims no_faults example_db example_auth) =
      Inr \<lparr>total = 3, migrated = 1, already_has_claims = 1, no_store = 1, errors = 0\<rparr>"
    by (simp add: migrate_claims_Inr [OF example_db_index] k)
  have q: "o_status (outcome_of no_faults example_index user_u1 example_state) = ''migrated''"
    by code_simp
  note t = revoke_never_changes_status [where env = no_faults and r = "\<lambda>u. True"
      and db = example_db and a = example_auth and idx = example_index and u = user_u1
      and s = example_state]
  from t p q show ?thesis
    by simp
qed



subsection \<open>Running the migration again\<close>

lemma find_Some_mem: "find P xs = Some x \<Longrightarrow> x \<in> set xs"
  by (induction xs) (auto split: if_splits)

lemma index_storeId_nonempty:
  assumes "\<forall>d \<in> set (stores db). store_doc_id d \<noteq> []"
    and "get_all_stores db = Inr idx"
    and "idx owner = Some info"
  shows "storeId info \<noteq> []"
proof -
  from assms(2) have l: "get_all_stores_loop (stores db) Map.empty = Inr idx"
    by (simp add: get_all_stores_def)
  from assms(3) obtain d where f: "find (\<lambda>d. ownerId d = Some owner) (rev (stores db)) = Some d"
    and i: "info = \<lparr>storeId = store_doc_id d, storeName = stored_name d\<rparr>"
    by (auto simp add: get_all_stores_loop_lookup [OF l] split: if_splits option.splits)
  from f have "d \<in> set (rev (stores db))"
    by (rule find_Some_mem)
  then have "d \<in> set (stores db)"
    by simp
  with assms(1) i show ?thesis
    by simp
qed

lemma has_store_claim_accounts:
  "accounts a = accounts b \<Longrightarrow> has_store_claim a v = has_store_claim b v"
  by (simp add: has_store_claim_def)

lemma fetched_truthy_has_claim:
  "py_truthy (map_of (fetched_claims env s u) ''storeId'') \<Longrightarrow>
   has_store_claim (auth s) (user_doc_id u)"
  by (auto simp add: fetched_claims_eq has_store_claim_def py_truthy_def
      split: if_splits option.splits)

lemma has_claim_fetched_truthy:
  "has_store_claim (auth s) (user_doc_id u) \<Longrightarrow> \<not> get_user_fails env (user_doc_id u) \<Longrightarrow>
   py_truthy (map_of (fetched_claims env s u) ''storeId'')"
  by (auto simp add: fetched_claims_eq has_store_claim_def split: option.splits)

lemma body_keeps_claim:
  assumes wf: "\<forall>owner info. idx owner = Some info \<longrightarrow> storeId info \<noteq> []"
    and h: "has_store_claim (auth s) v"
  shows "has_store_claim (auth (migrate_claims_body env idx u s)) v"
proof (cases rule: body_split [where env = env and s = s and u = u and idx = idx])
  case already
  then show ?thesis using h by (simp add: body_already has_store_claim_def)
next
  case no_store
  then show ?thesis using h by (simp add: body_no_store has_store_claim_def)
next
  case (error info)
  then show ?thesis using h by (simp add: body_error [where info = info] has_store_claim_def)
next
  case (migrated info)
  from wf migrated(2) have "storeId info \<noteq> []" by blast
  with migrated h show ?thesis
    by (simp add: body_migrated [where info = info] has_store_claim_def py_truthy_def)
qed

lemma loop_keeps_claim:
  assumes wf: "\<forall>owner info. idx owner = Some info \<longrightarrow> storeId info \<noteq> []"
  shows "has_store_claim (auth s) v \<Longrightarrow>
         has_store_claim (auth (migrate_claims_loop env idx us s)) v"
  by (induction us arbitrary: s) (simp_all add: body_keeps_claim [OF wf])

lemma body_errors_mono: "errors (st s) \<le> errors (st (migrate_claims_body env idx u s))"
  by (simp add: body_stats)

lemma loop_errors_mono: "errors (st s) \<le> errors (st (migrate_claims_loop env idx us s))"
proof (induction us arbitrary: s)
  case Nil
  show ?case by simp
next
  case (Cons u us)
  have "errors (st s) \<le> errors (st (migrate_claims_body env idx u s))"
    by (rule body_errors_mono)
  also have "\<dots> \<le> errors (st (migrate_claims_loop env idx us (migrate_claims_body env idx u s)))"
    by (rule Cons.IH)
  finally show ?case by simp
qed

lemma body_settles:
  assumes wf: "\<forall>owner info. idx owner = Some info \<longrightarrow> storeId info \<noteq> []"
    and e: "errors (st (migrate_claims_body env idx u s)) = errors (st s)"
  shows "has_store_claim (auth (migrate_claims_body env idx u s)) (user_doc_id u)
       \<or> idx (user_doc_id u) = None"
proof (cases rule: body_split [where env = env and s = s and u = u and idx = idx])
  case already
  then have "has_store_claim (auth s) (user_doc_id u)"
    by (rule fetched_truthy_has_claim)
  then show ?thesis by (simp add: body_keeps_claim [OF wf])
next
  case no_store
  then show ?thesis by simp
next
  case (error info)
  with e show ?thesis by (simp add: body_error [where info = info])
next
  case (migrated info)
  from wf migrated(2) have "storeId info \<noteq> []" by blast
  with migrated show ?thesis
    by (simp add: body_migrated [where info = info] has_store_claim_def py_truthy_def)
qed

lemma loop_settles:
  assumes wf: "\<forall>owner info. idx owner = Some info \<longrightarrow> storeId info \<noteq> []"
  shows "errors (st (migrate_claims_loop env idx us s)) = errors (st s) \<Longrightarrow>
         \<forall>u \<in> set us. has_store_claim (auth (migrate_claims_loop env idx us s)) (user_doc_id u)
                      \<or> idx (user_doc_id u) = None"
proof (induction us arbitrary: s)
  case Nil
  show ?case by simp
next
  case (Cons u us)
  let ?s' = "migrate_claims_body env idx u s"
  have 1: "errors (st s) \<le> errors (st ?s')" by (rule body_errors_mono)
  have 2: "errors (st ?s') \<le> errors (st (migrate_claims_loop env idx us ?s'))"
    by (rule loop_errors_mono)
  from Cons.prems have 3: "errors (st (migrate_claims_loop env idx us ?s')) = errors (st s)"
    by simp
  from 1 2 3 have b: "errors (st ?s') = errors (st s)"
    and l: "errors (st (migrate_claims_loop env idx us ?s')) = errors (st ?s')"
    by simp_all
  have settled: "has_store_claim (auth ?s') (user_doc_id u) \<or> idx (user_doc_id u) = None"
    using wf b by (rule body_settles)
  have hd: "has_store_claim (auth (migrate_claims_loop env idx us ?s')) (user_doc_id u)
      \<or> idx (user_doc_id u) = None"
  proof (cases "idx (user_doc_id u) = None")
    case True
    then show ?thesis by simp
  next
    case False
    with settled have "has_store_claim (auth ?s') (user_doc_id u)" by simp
    then have "has_store_claim (auth (migrate_claims_loop env idx us ?s')) (user_doc_id u)"
      by (rule loop_keeps_claim [OF wf])
    then show ?thesis by simp
  qed
  from Cons.IH [OF l] hd show ?case by simp
qed

lemma body_rerun:
  assumes "has_store_claim (auth s) (user_doc_id u) \<or> idx (user_doc_id u) = None"
    and "\<not> get_user_fails env (user_doc_id u)"
  shows "migrated (st (migrate_claims_body env idx u s)) = migrated (st s)
       \<and> accounts (auth (migrate_claims_body env idx u s)) = accounts (auth s)"
proof (cases "py_truthy (map_of (fetched_claims env s u) ''storeId'')")
  case True
  then show ?thesis by (simp add: body_already)
next
  case False
  with assms have "idx (user_doc_id u) = None"
    using has_claim_fetched_truthy by blast
  with False show ?thesis by (simp add: body_no_store)
qed

lemma loop_rerun:
  "\<forall>u \<in> set us. (has_store_claim (auth s) (user_doc_id u) \<or> idx (user_doc_id u) = None)
                 \<and> \<not> get_user_fails env (user_doc_id u) \<Longrightarrow>
   migrated (st (migrate_claims_loop env idx us s)) = migrated (st s)"
proof (induction us arbitrary: s)
  case Nil
  show ?case by simp
next
  case (Cons u us)
  let ?s' = "migrate_claims_body env idx u s"
  from Cons.prems have b: "migrated (st ?s') = migrated (st s)"
    and k: "accounts (auth ?s') = accounts (auth s)"
    using body_rerun [of s u idx env] by simp_all
  from Cons.prems have "\<forall>v \<in> set us.
      (has_store_claim (auth ?s') (user_doc_id v) \<or> idx (user_doc_id v) = None)
      \<and> \<not> get_user_fails env (user_doc_id v)"
    by (simp add: has_store_claim_accounts [OF k])
  from Cons.IH [OF this] b show ?case by simp
qed


text \<open>
  Claim C1, as the script behaves.  Store documents have non-empty ids, and the
  ownership index \<open>idx\<close> is the one built from the stores.  (1) Take a user who owns a
  store in the index and for whom the authentication service holds no non-empty
  \<open>storeId\<close> claim.  If the claim write of the first iteration succeeds, and the
  \<open>get_user\<close> call of a second iteration, run on the state the first one left, does
  not raise, then the first status is \<open>migrated\<close> and the second is
  \<open>already_has_claims\<close>.  (2) A run over users each of whom either holds a non-empty
  \<open>storeId\<close> claim or owns no store, all of whose \<open>get_user\<close> calls succeed, returns
  with \<open>migrated\<close> = 0.  (3) A first run returns, and so does a second run started on
  the state the first one left, with the same stores and users; if the first run had no
  errors and every \<open>get_user\<close> call of the second succeeds, the count \<open>migrated\<close> of
  the second is zero and none of its outcome records has status \<open>migrated\<close>.
\<close>

theorem migration_idempotent:
  assumes wf: "\<forall>d \<in> set (stores db). store_doc_id d \<noteq> []"
    and built: "get_all_stores db = Inr idx"
  shows "(idx (user_doc_id u) = Some info
          \<and> \<not> has_store_claim (auth s) (user_doc_id u)
          \<and> write_ok env1 s u info
          \<and> \<not> fetch_raises env2 (migrate_claims_body env1 idx u s) u
          \<longrightarrow> o_status (outcome_of env1 idx u s) = ''migrated''
            \<and> o_status (outcome_of env2 idx u (migrate_claims_body env1 idx u s)) =
                ''already_has_claims'')
       \<and> ((\<forall>v \<in> set (users db).
              (has_store_claim a (user_doc_id v) \<or> idx (user_doc_id v) = None)
              \<and> \<not> get_user_fails env2 (user_doc_id v))
          \<longrightarrow> (\<exists>r. migrate_claims env2 db a = Inr r \<and> migrated (returned r) = 0))
       \<and> (\<exists>r1 r2. migrate_claims env1 db a = Inr r1
            \<and> migrate_claims env2 db (auth_after r1) = Inr r2
            \<and> (errors (returned r1) = 0
                \<and> (\<forall>v \<in> set (users db). \<not> get_user_fails env2 (user_doc_id v))
                \<longrightarrow> migrated (returned r2) = 0
                  \<and> (\<forall>out \<in> set (report_results (log_file r2)).
                       o_status out \<noteq> ''migrated'')))"
proof -
  have wfi: "\<forall>owner info. idx owner = Some info \<longrightarrow> storeId info \<noteq> []"
    using index_storeId_nonempty [OF wf built] by blast
  have twice: "o_status (outcome_of env1 idx u s) = ''migrated''
      \<and> o_status (outcome_of env2 idx u (migrate_claims_body env1 idx u s)) =
          ''already_has_claims''"
    if i: "idx (user_doc_id u) = Some info"
      and n: "\<not> has_store_claim (auth s) (user_doc_id u)"
      and w: "write_ok env1 s u info"
      and f: "\<not> fetch_raises env2 (migrate_claims_body env1 idx u s) u"
  proof -
    let ?s' = "migrate_claims_body env1 idx u s"
    from n have nt: "\<not> py_truthy (map_of (fetched_claims env1 s u) ''storeId'')"
      using fetched_truthy_has_claim by blast
    note b = body_migrated [where idx = idx, OF nt i w]
    have first: "o_status (outcome_of env1 idx u s) = ''migrated''"
      by (simp add: outcome_of_def b)
    from wfi i have ne: "storeId info \<noteq> []" by blast
    have "accounts (auth ?s') (user_doc_id u) =
        Some (Some [(''storeId'', storeId info), (''role'', ''owner'')])"
      by (simp add: b)
    with ne have "has_store_claim (auth ?s') (user_doc_id u)"
      by (simp add: has_store_claim_def py_truthy_def)
    moreover from f have "\<not> get_user_fails env2 (user_doc_id u)"
      by (simp add: fetch_raises_eq)
    ultimately have "py_truthy (map_of (fetched_claims env2 ?s' u) ''storeId'')"
      by (rule has_claim_fetched_truthy)
    then have "o_status (outcome_of env2 idx u ?s') = ''already_has_claims''"
      by (simp add: outcome_of_def body_already)
    with first show ?thesis by simp
  qed
  have settled_loop: "migrated (st (migrate_claims_loop env2 idx (users db)
        \<lparr>st = initial_stats, results = [], auth = b\<rparr>)) = 0"
    if "\<forall>v \<in> set (users db).
          (has_store_claim b (user_doc_id v) \<or> idx (user_doc_id v) = None)
          \<and> \<not> get_user_fails env2 (user_doc_id v)" for b
  proof -
    let ?init = "\<lparr>st = initial_stats, results = [], auth = b\<rparr>"
    from that have "\<forall>v \<in> set (users db).
        (has_store_claim (auth ?init) (user_doc_id v) \<or> idx (user_doc_id v) = None)
        \<and> \<not> get_user_fails env2 (user_doc_id v)"
      by simp
    then have "migrated (st (migrate_claims_loop env2 idx (users db) ?init)) =
        migrated (st ?init)"
      by (rule loop_rerun)
    then show ?thesis
      by (simp add: initial_stats_def)
  qed
  have settled_run: "\<exists>r. migrate_claims env2 db a = Inr r \<and> migrated (returned r) = 0"
    if h: "\<forall>v \<in> set (users db).
          (has_store_claim a (user_doc_id v) \<or> idx (user_doc_id v) = None)
          \<and> \<not> get_user_fails env2 (user_doc_id v)"
    using settled_loop [OF h] by (simp add: migrate_claims_Inr [OF built])
  let ?init1 = "\<lparr>st = initial_stats, results = [], auth = a\<rparr>"
  let ?s1 = "migrate_claims_loop env1 idx (users db) ?init1"
  let ?r1 = "\<lparr>returned = st ?s1,
              log_file = \<lparr>report_stats = st ?s1, report_results = results ?s1\<rparr>,
              auth_after = auth ?s1\<rparr>"
  let ?init2 = "\<lparr>st = initial_stats, results = [], auth = auth ?s1\<rparr>"
  let ?s2 = "migrate_claims_loop env2 idx (users db) ?init2"
  let ?r2 = "\<lparr>returned = st ?s2,
              log_file = \<lparr>report_stats = st ?s2, report_results = results ?s2\<rparr>,
              auth_after = auth ?s2\<rparr>"
  have ret1: "migrate_claims env1 db a = Inr ?r1"
    by (rule migrate_claims_Inr [OF built])
  have ret2: "migrate_claims env2 db (auth_after ?r1) = Inr ?r2"
    by (simp add: migrate_claims_Inr [OF built])
  have rerun: "migrated (returned ?r2) = 0
      \<and> (\<forall>out \<in> set (report_results (log_file ?r2)). o_status out \<noteq> ''migrated'')"
    if e: "errors (returned ?r1) = 0"
      and f: "\<forall>v \<in> set (users db). \<not> get_user_fails env2 (user_doc_id v)"
  proof -
    from e have "errors (st ?s1) = errors (st ?init1)"
      by (simp add: initial_stats_def)
    with wfi have "\<forall>v \<in> set (users db).
        has_store_claim (auth ?s1) (user_doc_id v) \<or> idx (user_doc_id v) = None"
      by (rule loop_settles)
    with f have "\<forall>v \<in> set (users db).
        (has_store_claim (auth ?s1) (user_doc_id v) \<or> idx (user_doc_id v) = None)
        \<and> \<not> get_user_fails env2 (user_doc_id v)"
      by simp
    then have m: "migrated (st ?s2) = 0"
      by (rule settled_loop)
    have "st ?s2 = recount (results ?s2)"
      by (rule loop_recount) (simp add: initial_recount)
    with m have "count_status ''migrated'' (results ?s2) = 0"
      by (simp add: recount_def)
    then have "\<forall>out \<in> set (results ?s2). o_status out \<noteq> ''migrated''"
      by (rule count_status_zero)
    with m show ?thesis by simp
  qed
  have third: "\<exists>r1 r2. migrate_claims env1 db a = Inr r1
      \<and> migrate_claims env2 db (auth_after r1) = Inr r2
      \<and> (errors (returned r1) = 0
          \<and> (\<forall>v \<in> set (users db). \<not> get_user_fails env2 (user_doc_id v))
          \<longrightarrow> migrated (returned r2) = 0
            \<and> (\<forall>out \<in> set (report_results (log_file r2)). o_status out \<noteq> ''migrated''))"
    using ret1 ret2 rerun by blast
  from twice settled_run third show ?thesis by blast
qed

theorem migration_idempotent_witness:
  "list_all (\<lambda>d. store_doc_id d \<noteq> []) (stores example_db)
   \<and> get_all_stores example_db = Inr example_index
   \<and> example_index (user_doc_id user_u1) =
       Some \<lparr>storeId = ''S1'', storeName = FString ''Acme''\<rparr>
   \<and> \<not> has_store_claim (auth example_state) (user_doc_id user_u1)
   \<and> write_ok no_faults example_state user_u1
       \<lparr>storeId = ''S1'', storeName = FString ''Acme''\<rparr>
   \<and> \<not> fetch_raises no_faults
         (migrate_claims_body no_faults example_index user_u1 example_state) user_u1
   \<and> o_status (outcome_of no_faults example_index user_u1 example_state) = ''migrated''
   \<and> o_status (outcome_of no_faults example_index user_u1
        (migrate_claims_body no_faults example_index user_u1 example_state)) =
       ''already_has_claims''
   \<and> list_all (\<lambda>v. (has_store_claim example_auth_migrated (user_doc_id v)
                      \<or> example_index (user_doc_id v) = None)
                     \<and> \<not> get_user_fails no_faults (user_doc_id v)) (users example_db)
   \<and> (\<exists>r. migrate_claims no_faults example_db example_auth_migrated = Inr r
        \<and> migrated (returned r) = 0)
   \<and> (\<exists>r1 r2. migrate_claims no_faults example_db example_auth = Inr r1
        \<and> migrate_claims no_faults example_db (auth_after r1) = Inr r2
        \<and> migrated (returned r1) = 1
        \<and> errors (returned r1) = 0
        \<and> migrated (returned r2) = 0)"
proof -
  let ?info = "\<lparr>storeId = ''S1'', storeName = FString ''Acme''\<rparr>"
  have wf: "\<forall>d \<in> set (stores example_db). store_doc_id d \<noteq> []"
    by (simp add: example_db_def)
  have wl: "list_all (\<lambda>d. store_doc_id d \<noteq> []) (stores example_db)"
    by (simp add: example_db_def)
  have i: "example_index (user_doc_id user_u1) = Some ?info"
    by (simp add: example_index_def user_u1_def)
  have n: "\<not> has_store_claim (auth example_state) (user_doc_id user_u1)"
    by (simp add: has_store_claim_def example_defs)
  have w: "write_ok no_faults example_state user_u1 ?info"
    by (simp add: write_ok_eq example_defs)
  have f: "\<not> fetch_raises no_faults
      (migrate_claims_body no_faults example_index user_u1 example_state) user_u1"
    by code_simp
  have us: "users example_db = [user_u1, user_u2, user_u3]"
    by (simp add: example_db_def)
  have sb: "\<forall>v \<in> set (users example_db).
      (has_store_claim example_auth_migrated (user_doc_id v)
       \<or> example_index (user_doc_id v) = None)
      \<and> \<not> get_user_fails no_faults (user_doc_id v)"
    by (simp add: us example_index_def has_store_claim_def example_auth_migrated_def
        py_truthy_def no_faults_def user_u1_def user_u2_def user_u3_def)
  then have sl: "list_all (\<lambda>v. (has_store_claim example_auth_migrated (user_doc_id v)
                      \<or> example_index (user_doc_id v) = None)
                     \<and> \<not> get_user_fails no_faults (user_doc_id v)) (users example_db)"
    by (simp add: list_all_iff)
  have fb: "\<forall>v \<in> set (users example_db). \<not> get_user_fails no_faults (user_doc_id v)"
    by (simp add: no_faults_def)
  note t1 = migration_idempotent [OF wf example_db_index, where u = user_u1 and info = ?info
      and s = example_state and ?env1.0 = no_faults and ?env2.0 = no_faults and a = example_auth]
  from t1 i n w f have c1:
    "o_status (outcome_of no_faults example_index user_u1 example_state) = ''migrated''
     \<and> o_status (outcome_of no_faults example_index user_u1
          (migrate_claims_body no_faults example_index user_u1 example_state)) =
         ''already_has_claims''"
    by blast
  note t2 = migration_idempotent [OF wf example_db_index, where u = user_u1 and info = ?info
      and s = example_state and ?env1.0 = no_faults and ?env2.0 = no_faults
      and a = example_auth_migrated]
  from t2 sb have c2: "\<exists>r. migrate_claims no_faults example_db example_auth_migrated = Inr r
      \<and> migrated (returned r) = 0"
    by blast
  from t1 obtain r1 r2 where ret1: "migrate_claims no_faults example_db example_auth = Inr r1"
    and ret2: "migrate_claims no_faults example_db (auth_after r1) = Inr r2"
    and imp: "errors (returned r1) = 0
        \<and> (\<forall>v \<in> set (users example_db). \<not> get_user_fails no_faults (user_doc_id v))
        \<longrightarrow> migrated (returned r2) = 0"
    by blast
  let ?s = "migrate_claims_loop no_faults example_index (users example_db)
              \<lparr>st = initial_stats, results = [], auth = example_auth\<rparr>"
  have k: "st ?s = \<lparr>total = 3, migrated = 1, already_has_claims = 1, no_store = 1, errors = 0\<rparr>"
    by code_simp
  from ret1 migrate_claims_Inr [OF example_db_index, of no_faults example_auth]
  have "returned r1 = st ?s"
    by auto
  with k have m1: "migrated (returned r1) = 1" and e1: "errors (returned r1) = 0"
    by simp_all
  from imp e1 fb have m2: "migrated (returned r2) = 0"
    by blast
  from ret1 ret2 m1 e1 m2
  have c3: "\<exists>r1 r2. migrate_claims no_faults example_db example_auth = Inr r1
        \<and> migrate_claims no_faults example_db (auth_after r1) = Inr r2
        \<and> migrated (returned r1) = 1
        \<and> errors (returned r1) = 0
        \<and> migrated (returned r2) = 0"
    by blast
  show ?thesis
    by (intro conjI)
       (rule wl example_db_index i n w f c1 [THEN conjunct1] c1 [THEN conjunct2] sl c2 c3)+
qed

text \<open>
  Claim C1 as stated fails when \<open>get_user\<close> raises in the second run.  User u1 owns
  store S1 and has no claims; the first iteration writes the claims and the service
  holds them afterwards.  In a second iteration whose \<open>get_user\<close> call raises, the
  claim set is taken to be empty, the claims are written again and the status is
  \<open>migrated\<close> a second time; a whole second run in that environment, after a first run
  without errors, counts one \<open>migrated\<close>.
\<close>

theorem migration_idempotent_counterexample:
  "get_all_stores example_db = Inr example_index
   \<and> example_index (user_doc_id user_u1) =
       Some \<lparr>storeId = ''S1'', storeName = FString ''Acme''\<rparr>
   \<and> \<not> has_store_claim (auth example_state) (user_doc_id user_u1)
   \<and> write_ok no_faults example_state user_u1
       \<lparr>storeId = ''S1'', storeName = FString ''Acme''\<rparr>
   \<and> o_status (outcome_of no_faults example_index user_u1 example_state) = ''migrated''
   \<and> has_store_claim
         (auth (migrate_claims_body no_faults example_index user_u1 example_state))
         (user_doc_id user_u1)
   \<and> o_status (outcome_of failing_fetch example_index user_u1
        (migrate_claims_body no_faults example_index user_u1 example_state)) = ''migrated''
   \<and> (\<exists>r1 r2. migrate_claims no_faults example_db example_auth = Inr r1
        \<and> migrate_claims failing_fetch example_db (auth_after r1) = Inr r2
        \<and> errors (returned r1) = 0
        \<and> migrated (returned r1) = 1
        \<and> migrated (returned r2) = 1)"
proof -
  let ?info = "\<lparr>storeId = ''S1'', storeName = FString ''Acme''\<rparr>"
  let ?idx = "example_index"
  let ?s1 = "migrate_claims_body no_faults ?idx user_u1 example_state"
  have i: "?idx (user_doc_id user_u1) = Some ?info"
    by (simp add: example_index_def user_u1_def)
  have n: "\<not> has_store_claim (auth example_state) (user_doc_id user_u1)"
    by (simp add: has_store_claim_def example_defs)
  then have nt: "\<not> py_truthy (map_of (fetched_claims no_faults example_state user_u1) ''storeId'')"
    using fetched_truthy_has_claim by blast
  have w: "write_ok no_faults example_state user_u1 ?info"
    by (simp add: write_ok_eq example_defs)
  note b = body_migrated [where idx = ?idx, OF nt i w]
  have o1: "o_status (outcome_of no_faults ?idx user_u1 example_state) = ''migrated''"
    by (simp add: outcome_of_def b)
  have k: "accounts (auth ?s1) (user_doc_id user_u1) =
      Some (Some [(''storeId'', ''S1''), (''role'', ''owner'')])"
    by (simp add: b)
  then have h: "has_store_claim (auth ?s1) (user_doc_id user_u1)"
    by (simp add: has_store_claim_def py_truthy_def)
  have gf: "get_user_fails failing_fetch (user_doc_id user_u1)"
    and sf: "\<not> set_claims_fails failing_fetch (user_doc_id user_u1)"
    by (simp_all add: failing_fetch_def no_faults_def)
  have f2: "fetched_claims failing_fetch ?s1 user_u1 = []"
    by (simp add: fetched_claims_eq gf)
  have w2: "write_ok failing_fetch ?s1 user_u1 ?info"
    by (simp add: write_ok_eq k sf)
  have o2: "o_status (outcome_of failing_fetch ?idx user_u1 ?s1) = ''migrated''"
    by (simp add: outcome_migrated_iff f2 w2 i py_truthy_def)
  let ?l1 = "migrate_claims_loop no_faults example_index (users example_db)
              \<lparr>st = initial_stats, results = [], auth = example_auth\<rparr>"
  let ?r1 = "\<lparr>returned = st ?l1,
              log_file = \<lparr>report_stats = st ?l1, report_results = results ?l1\<rparr>,
              auth_after = auth ?l1\<rparr>"
  let ?l2 = "migrate_claims_loop failing_fetch example_index (users example_db)
              \<lparr>st = initial_stats, results = [], auth = auth ?l1\<rparr>"
  let ?r2 = "\<lparr>returned = st ?l2,
              log_file = \<lparr>report_stats = st ?l2, report_results = results ?l2\<rparr>,
              auth_after = auth ?l2\<rparr>"
  have ret1: "migrate_claims no_faults example_db example_auth = Inr ?r1"
    by (rule migrate_claims_Inr [OF example_db_index])
  have ret2: "migrate_claims failing_fetch example_db (auth_after ?r1) = Inr ?r2"
    by (simp add: migrate_claims_Inr [OF example_db_index])
  have k1: "st ?l1 = \<lparr>total = 3, migrated = 1, already_has_claims = 1, no_store = 1, errors = 0\<rparr>"
    by code_simp
  have k2: "st ?l2 = \<lparr>total = 3, migrated = 1, already_has_claims = 0, no_store = 2, errors = 0\<rparr>"
    by code_simp
  have runs: "\<exists>r1 r2. migrate_claims no_faults example_db example_auth = Inr r1
        \<and> migrate_claims failing_fetch example_db (auth_after r1) = Inr r2
        \<and> errors (returned r1) = 0
        \<and> migrated (returned r1) = 1
        \<and> migrated (returned r2) = 1"
    by (intro exI [of _ ?r1] exI [of _ ?r2] conjI ret1 ret2) (simp_all add: k1 k2)
  show ?thesis
    by (intro conjI) (rule example_db_index i n w o1 h o2 runs)+
qed

end
